theory Spec2Isabelle
  imports Main
begin

section \<open>Exceptions\<close>

text \<open>
  The exceptions the engine raises, catches or lets through. The source distinguishes
  three handlers: \<^verbatim>\<open>except S3ResponseError\<close>, \<^verbatim>\<open>except Exception\<close> and the bare
  \<^verbatim>\<open>except:\<close>. \<open>SystemExit\<close> and \<open>KeyboardInterrupt\<close> derive from
  \<^verbatim>\<open>BaseException\<close> only, so \<^verbatim>\<open>except Exception\<close> lets them through.
  \<open>OtherException\<close> stands for any further subclass of \<^verbatim>\<open>Exception\<close>
  (an I/O or network error of a collaborator), told apart by its message.
\<close>

datatype exn =
    S3ResponseError
  | ValueError
  | KeyError
  | TypeError
  | AttributeError
  | IndexError
  | ZeroDivisionError
  | OtherException string
  | SystemExit
  | KeyboardInterrupt

fun is_Exception :: "exn \<Rightarrow> bool" where
  "is_Exception SystemExit = False"
| "is_Exception KeyboardInterrupt = False"
| "is_Exception _ = True"

section \<open>Transfer with retry: \<^verbatim>\<open>download_snappy_key\<close>\<close>

text \<open>
  \<^verbatim>\<open>
  MAX_RETRY_COUNT = 3

  def download_snappy_key(key, dst):
      retry_count = 0
      while retry_count < MAX_RETRY_COUNT:
          try:
              ... stream the key through the decompressor into dst ...
              return key.size
          except Exception:
              retry_count += 1
              if retry_count >= MAX_RETRY_COUNT:
                  raise
  \<close>
  The body of the \<^verbatim>\<open>try\<close> is input/output of the collaborators (object store, codec, file
  system). It is a parameter \<open>body\<close>: \<open>body n\<close> is the outcome of running it when \<open>n\<close>
  runs have been made before, \<open>Inr ()\<close> when it reaches the \<^verbatim>\<open>return\<close>. The function returns
  its result together with the number of runs made. A Python function that falls off its
  end returns \<^verbatim>\<open>None\<close>: the result is an \<open>int option\<close>.
\<close>

definition MAX_RETRY_COUNT :: nat where
  "MAX_RETRY_COUNT = 3"

function download_snappy_key_loop ::
  "(nat \<Rightarrow> exn + unit) \<Rightarrow> int \<Rightarrow> nat \<Rightarrow> nat \<Rightarrow> (exn + int option) \<times> nat" where
  "download_snappy_key_loop body key_size retry_count n =
     (if retry_count < MAX_RETRY_COUNT then
        (case body n of
           Inr _ \<Rightarrow> (Inr (Some key_size), Suc n)
         | Inl e \<Rightarrow>
             if is_Exception e then
               (if Suc retry_count \<ge> MAX_RETRY_COUNT then (Inl e, Suc n)
                else download_snappy_key_loop body key_size (Suc retry_count) (Suc n))
             else (Inl e, Suc n))
      else (Inr None, n))"
  by pat_completeness auto
termination
  by (relation "measure (\<lambda>(body, key_size, retry_count, n). MAX_RETRY_COUNT - retry_count)")
     auto

declare download_snappy_key_loop.simps [simp del]

definition download_snappy_key :: "(nat \<Rightarrow> exn + unit) \<Rightarrow> int \<Rightarrow> (exn + int option) \<times> nat" where
  "download_snappy_key body key_size = download_snappy_key_loop body key_size 0 0"

section \<open>Strings and paths of the runtime library\<close>

text \<open>
  \<^verbatim>\<open>s.split(sep)\<close> for a one-character separator: the pieces between the occurrences of
  the separator, empty pieces kept; the result is never empty.
\<close>

fun split_on :: "char \<Rightarrow> string \<Rightarrow> string list" where
  "split_on sep [] = [[]]"
| "split_on sep (c # cs) =
     (if c = sep then [] # split_on sep cs
      else (case split_on sep cs of
              [] \<Rightarrow> [[c]]
            | piece # pieces \<Rightarrow> (c # piece) # pieces))"

text \<open>
  \<^verbatim>\<open>s.split()\<close> without a separator: the pieces between runs of whitespace, empty
  pieces dropped.
\<close>

definition is_space :: "char \<Rightarrow> bool" where
  "is_space c \<longleftrightarrow> c \<in> set [CHR '' '', CHR 0x09, CHR 0x0A, CHR 0x0B, CHR 0x0C, CHR 0x0D]"

fun split_when :: "(char \<Rightarrow> bool) \<Rightarrow> string \<Rightarrow> string list" where
  "split_when p [] = [[]]"
| "split_when p (c # cs) =
     (if p c then [] # split_when p cs
      else (case split_when p cs of
              [] \<Rightarrow> [[c]]
            | piece # pieces \<Rightarrow> (c # piece) # pieces))"

definition split_ws :: "string \<Rightarrow> string list" where
  "split_ws s = filter (\<lambda>piece. piece \<noteq> []) (split_when is_space s)"

text \<open>
  \<^verbatim>\<open>os.path.join(a, *p)\<close> of \<^verbatim>\<open>posixpath\<close>:
  \<^verbatim>\<open>
  path = a
  for b in p:
      if b.startswith('/'):                      path = b
      elif path == '' or path.endswith('/'):     path += b
      else:                                      path += '/' + b
  \<close>
\<close>

definition join_step :: "string \<Rightarrow> string \<Rightarrow> string" where
  "join_step path b =
     (if b \<noteq> [] \<and> hd b = CHR ''/'' then b
      else if path = [] \<or> last path = CHR ''/'' then path @ b
      else path @ ''/'' @ b)"

definition os_path_join :: "string \<Rightarrow> string list \<Rightarrow> string" where
  "os_path_join a p = foldl join_step a p"

definition os_path_sep :: char where
  "os_path_sep = CHR ''/''"

text \<open>A name that \<^verbatim>\<open>os.path.join\<close> treats as one segment: not empty, no \<^verbatim>\<open>/\<close> at either end.\<close>

definition segment :: "string \<Rightarrow> bool" where
  "segment s \<longleftrightarrow> s \<noteq> [] \<and> hd s \<noteq> CHR ''/'' \<and> last s \<noteq> CHR ''/''"

section \<open>The path matcher of a restore\<close>

text \<open>
  \<^verbatim>\<open>
  if not table:
      table = ".*?"
  matcher_string = "(%(hosts)s).*/(%(keyspace)s)/(%(table)s)/" % dict(
      hosts='|'.join(hosts), keyspace=keyspace, table=table)
  self.keyspace_table_matcher = re.compile(matcher_string)
  \<close>
  The host names, the keyspace and the table are pasted into the pattern as they are. The
  model covers names that hold no character with a meaning in a pattern
  (\<open>plain_name\<close>); for such names the pattern is an alternation of literal host names, a
  greedy \<^verbatim>\<open>.*\<close>, the literal \<^verbatim>\<open>/keyspace/\<close>, the table (literal, or the lazy \<^verbatim>\<open>.*?\<close>) and
  a closing \<^verbatim>\<open>/\<close>. \<open>search\<close> is \<^verbatim>\<open>re\<close>'s backtracking search: the leftmost start, there the
  first alternative that leads to a match, the longest \<^verbatim>\<open>.*\<close>, the shortest \<^verbatim>\<open>.*?\<close>. The
  result holds the three groups. The dot does not match a newline.
\<close>

definition pattern_chars :: "char list" where
  "pattern_chars = CHR 0x5C # ''.^$*+?{}[]|()''"

definition plain_name :: "string \<Rightarrow> bool" where
  "plain_name s \<longleftrightarrow> (\<forall>c \<in> set s. c \<notin> set pattern_chars)"

definition is_dot :: "char \<Rightarrow> bool" where
  "is_dot c \<longleftrightarrow> c \<noteq> CHR 0x0A"

definition strip_prefix :: "string \<Rightarrow> string \<Rightarrow> string option" where
  "strip_prefix lit s =
     (if take (length lit) s = lit then Some (drop (length lit) s) else None)"

text \<open>Greedy \<^verbatim>\<open>.*\<close> followed by \<open>k\<close>: consume while possible, give back on failure.\<close>

fun greedy_dots :: "(string \<Rightarrow> 'a option) \<Rightarrow> string \<Rightarrow> 'a option" where
  "greedy_dots k [] = k []"
| "greedy_dots k (c # cs) =
     (if is_dot c then
        (case greedy_dots k cs of
           Some r \<Rightarrow> Some r
         | None \<Rightarrow> k (c # cs))
      else k (c # cs))"

text \<open>
  The group \<^verbatim>\<open>(.*?)\<close> followed by \<^verbatim>\<open>/\<close>: the shortest run of dots after which a \<^verbatim>\<open>/\<close>
  stands; \<open>seen\<close> is what the group holds so far.
\<close>

fun lazy_dots_slash :: "string \<Rightarrow> string \<Rightarrow> string option" where
  "lazy_dots_slash seen [] = None"
| "lazy_dots_slash seen (c # cs) =
     (if c = CHR ''/'' then Some seen
      else if is_dot c then lazy_dots_slash (seen @ [c]) cs
      else None)"

definition match_table :: "string \<Rightarrow> string \<Rightarrow> string option" where
  "match_table table s =
     (if table = [] then lazy_dots_slash [] s
      else (case strip_prefix (table @ ''/'') s of
              None \<Rightarrow> None
            | Some _ \<Rightarrow> Some table))"

definition match_tail :: "string \<Rightarrow> string \<Rightarrow> string \<Rightarrow> string option" where
  "match_tail keyspace table s =
     greedy_dots
       (\<lambda>rest. case strip_prefix (''/'' @ keyspace @ ''/'') rest of
                 None \<Rightarrow> None
               | Some rest' \<Rightarrow> match_table table rest') s"

fun match_hosts :: "string list \<Rightarrow> string \<Rightarrow> string \<Rightarrow> string \<Rightarrow> (string \<times> string \<times> string) option" where
  "match_hosts [] keyspace table s = None"
| "match_hosts (h # hs) keyspace table s =
     (case strip_prefix h s of
        None \<Rightarrow> match_hosts hs keyspace table s
      | Some rest \<Rightarrow>
          (case match_tail keyspace table rest of
             None \<Rightarrow> match_hosts hs keyspace table s
           | Some g3 \<Rightarrow> Some (h, keyspace, g3)))"

text \<open>\<^verbatim>\<open>'|'.join([])\<close> is the empty pattern: one alternative, the empty string.\<close>

definition alternatives :: "string list \<Rightarrow> string list" where
  "alternatives hosts = (if hosts = [] then [[]] else hosts)"

fun search :: "string list \<Rightarrow> string \<Rightarrow> string \<Rightarrow> string \<Rightarrow> (string \<times> string \<times> string) option" where
  "search alts keyspace table [] = match_hosts alts keyspace table []"
| "search alts keyspace table (c # cs) =
     (case match_hosts alts keyspace table (c # cs) of
        Some groups \<Rightarrow> Some groups
      | None \<Rightarrow> search alts keyspace table cs)"

definition keyspace_table_search ::
  "string list \<Rightarrow> string \<Rightarrow> string \<Rightarrow> string \<Rightarrow> (string \<times> string \<times> string) option" where
  "keyspace_table_search hosts keyspace table = search (alternatives hosts) keyspace table"

section \<open>RestoreWorker\<close>

text \<open>
  The fields of \<^verbatim>\<open>RestoreWorker\<close> that the transfer of files reads. \<open>local_source\<close> is
  tested for truth only: the empty string stands for both \<^verbatim>\<open>None\<close> and \<^verbatim>\<open>''\<close>. The compiled
  pattern is held as its search function, \<open>None\<close> until \<^verbatim>\<open>_restore\<close> sets it.
\<close>

record restore_worker =
  local_source :: string
  merge_dir :: string
  path_separator :: char
  keyspace_table_matcher :: "(string \<Rightarrow> (string \<times> string \<times> string) option) option"

definition RestoreWorker :: "string \<Rightarrow> string \<Rightarrow> restore_worker" where
  "RestoreWorker src dir =
     \<lparr>local_source = src, merge_dir = dir, path_separator = os_path_sep,
      keyspace_table_matcher = None\<rparr>"

text \<open>The first statements of \<^verbatim>\<open>_restore\<close>: the pattern is built and stored.\<close>

definition set_matcher :: "restore_worker \<Rightarrow> string \<Rightarrow> string \<Rightarrow> string list \<Rightarrow> restore_worker" where
  "set_matcher w keyspace table hosts =
     w\<lparr>keyspace_table_matcher := Some (keyspace_table_search hosts keyspace table)\<rparr>"

text \<open>
  \<^verbatim>\<open>
  def dst_from_key(self, path):
      r = self.keyspace_table_matcher.search(path)
      merge_name = '%s_%s' % (r.group(1), path.split(self.path_separator)[-1])
      dst = os.path.join(self.merge_dir, r.group(2), r.group(3), merge_name)
      return dst
  \<close>
  Without a pattern, and for a path that the pattern does not match, the attribute access
  on \<^verbatim>\<open>None\<close> raises.
\<close>

definition dst_from_key :: "restore_worker \<Rightarrow> string \<Rightarrow> exn + string" where
  "dst_from_key w path =
     (case keyspace_table_matcher w of
        None \<Rightarrow> Inl AttributeError
      | Some matcher \<Rightarrow>
          (case matcher path of
             None \<Rightarrow> Inl AttributeError
           | Some (g1, g2, g3) \<Rightarrow>
               (let merge_name = g1 @ ''_'' @ last (split_on (path_separator w) path)
                in Inr (os_path_join (merge_dir w) [g2, g3, merge_name]))))"

text \<open>
  A transfer item is a path (local source) or an object-store key with its name and size.
  The collaborators are parameters: \<open>copy2 src dst\<close> and \<open>getsize path\<close> of the file
  system, and \<open>fetch name dst n\<close>, the outcome of the \<open>n\<close>-th run of the download body for
  a key and a destination. The files written are kept as a list of (destination, source),
  the newest first; a file that a failed transfer leaves behind is not recorded.
\<close>

datatype item = LocalPath string | S3Key string int

record transfer_env =
  copy2 :: "string \<Rightarrow> string \<Rightarrow> exn option"
  getsize :: "string \<Rightarrow> exn + int"
  fetch :: "string \<Rightarrow> string \<Rightarrow> nat \<Rightarrow> exn + unit"

type_synonym disk = "(string \<times> string) list"

text \<open>
  \<^verbatim>\<open>
  def _copy_key(self, key):
      dst = self.dst_from_key(path=key)
      shutil.copy2(src=key, dst=dst)
      return os.path.getsize(key)
  \<close>
\<close>

definition copy_key :: "transfer_env \<Rightarrow> restore_worker \<Rightarrow> item \<Rightarrow> disk \<Rightarrow> (exn + int option) \<times> disk" where
  "copy_key env w key d =
     (case key of
        S3Key _ _ \<Rightarrow> (Inl TypeError, d)
      | LocalPath path \<Rightarrow>
          (case dst_from_key w path of
             Inl e \<Rightarrow> (Inl e, d)
           | Inr dst \<Rightarrow>
               (case copy2 env path dst of
                  Some e \<Rightarrow> (Inl e, d)
                | None \<Rightarrow>
                    (case getsize env path of
                       Inl e \<Rightarrow> (Inl e, (dst, path) # d)
                     | Inr n \<Rightarrow> (Inr (Some n), (dst, path) # d)))))"

text \<open>
  \<^verbatim>\<open>
  def _download_key(self, key):
      dst = self.dst_from_key(path=key.name)
      download_snappy_key(key, dst)
  \<close>
  There is no \<^verbatim>\<open>return\<close>: the value of the call is \<^verbatim>\<open>None\<close>.
\<close>

definition download_key :: "transfer_env \<Rightarrow> restore_worker \<Rightarrow> item \<Rightarrow> disk \<Rightarrow> (exn + int option) \<times> disk" where
  "download_key env w key d =
     (case key of
        LocalPath _ \<Rightarrow> (Inl AttributeError, d)
      | S3Key name key_size \<Rightarrow>
          (case dst_from_key w name of
             Inl e \<Rightarrow> (Inl e, d)
           | Inr dst \<Rightarrow>
               (case fst (download_snappy_key (fetch env name dst) key_size) of
                  Inl e \<Rightarrow> (Inl e, d)
                | Inr _ \<Rightarrow> (Inr None, (dst, name) # d))))"

text \<open>
  \<^verbatim>\<open>
  def _download_keys(self, keys, total_size, pool_size=5):
      read_bytes = 0
      thread_pool = Pool(pool_size)
      if self.local_source: meth = self._copy_key
      else:                 meth = self._download_key
      for size in thread_pool.imap(meth, keys):
          read_bytes += size
          progress_string = "%s / %s (%.2f%%)" % (..., (read_bytes / float(total_size)) * 100.0)
          ...
  \<close>
  \<^verbatim>\<open>imap\<close> hands the results over in the order of the keys and raises an item's exception
  when the loop reaches it. The pool's threads are not modelled: the items are run one
  after the other, and none after the item that stops the loop. Adding \<^verbatim>\<open>None\<close> to a
  number raises \<^verbatim>\<open>TypeError\<close>; the division raises for a total of zero. The progress
  text itself is left out. The model returns \<^verbatim>\<open>read_bytes\<close>, which the source only shows.
\<close>

fun download_keys_loop ::
  "(item \<Rightarrow> disk \<Rightarrow> (exn + int option) \<times> disk) \<Rightarrow> int \<Rightarrow> int \<Rightarrow> disk \<Rightarrow> item list \<Rightarrow> (exn + int) \<times> disk" where
  "download_keys_loop transfer total_size read_bytes d [] = (Inr read_bytes, d)"
| "download_keys_loop transfer total_size read_bytes d (key # keys) =
     (case transfer key d of
        (Inl e, d') \<Rightarrow> (Inl e, d')
      | (Inr None, d') \<Rightarrow> (Inl TypeError, d')
      | (Inr (Some n), d') \<Rightarrow>
          (if total_size = 0 then (Inl ZeroDivisionError, d')
           else download_keys_loop transfer total_size (read_bytes + n) d' keys))"

definition meth :: "transfer_env \<Rightarrow> restore_worker \<Rightarrow> item \<Rightarrow> disk \<Rightarrow> (exn + int option) \<times> disk" where
  "meth env w = (if local_source w \<noteq> [] then copy_key env w else download_key env w)"

definition download_keys ::
  "transfer_env \<Rightarrow> restore_worker \<Rightarrow> item list \<Rightarrow> int \<Rightarrow> disk \<Rightarrow> (exn + int) \<times> disk" where
  "download_keys env w keys total_size d = download_keys_loop (meth env w) total_size 0 d keys"

definition item_path :: "item \<Rightarrow> string" where
  "item_path key = (case key of LocalPath path \<Rightarrow> path | S3Key key_name _ \<Rightarrow> key_name)"

section \<open>Snapshot\<close>

text \<open>
  The attributes of a \<^verbatim>\<open>Snapshot\<close> come from the command line (strings, a list of strings
  for the hosts) or from a manifest read back from the object store, where they are whatever
  the JSON text held. They are therefore values of the runtime: \<^verbatim>\<open>None\<close>, a string, a list
  or a dictionary. Numbers and booleans, which no code path writes into a manifest, are
  left out of the model; so is the difference between byte strings and unicode strings.
  On these values Python's \<^verbatim>\<open>==\<close> is equality of the terms, but for dictionaries, which
  are compared here in the order of their keys.
\<close>

datatype pyval =
    PyNone
  | PyStr string
  | PyList "pyval list"
  | PyDict "(string \<times> pyval) list"

text \<open>Truth value of an object in a condition.\<close>

fun truthy :: "pyval \<Rightarrow> bool" where
  "truthy PyNone = False"
| "truthy (PyStr s) = (s \<noteq> [])"
| "truthy (PyList xs) = (xs \<noteq> [])"
| "truthy (PyDict kvs) = (kvs \<noteq> [])"

text \<open>Subscription \<^verbatim>\<open>d[key]\<close> with a string key.\<close>

fun getitem :: "pyval \<Rightarrow> string \<Rightarrow> exn + pyval" where
  "getitem (PyDict kvs) key =
     (case map_of kvs key of None \<Rightarrow> Inl KeyError | Some v \<Rightarrow> Inr v)"
| "getitem _ key = Inl TypeError"

text \<open>
  \<open>base_path'\<close> is the attribute \<^verbatim>\<open>_base_path\<close>; the property \<^verbatim>\<open>base_path\<close> joins it with
  the name.
\<close>

record snapshot =
  s3_bucket :: string
  name :: pyval
  hosts :: pyval
  keyspaces :: pyval
  table :: pyval
  base_path' :: pyval

text \<open>
  \<^verbatim>\<open>
  def __init__(self, base_path, s3_bucket, hosts, keyspaces, table):
      self.s3_bucket = s3_bucket
      self.name = self.make_snapshot_name()
      ...
  \<close>
  \<^verbatim>\<open>make_snapshot_name\<close> formats the clock's \<^verbatim>\<open>utcnow()\<close>; its result is the parameter
  \<open>now\<close>.
\<close>

definition Snapshot :: "string \<Rightarrow> pyval \<Rightarrow> string \<Rightarrow> pyval \<Rightarrow> pyval \<Rightarrow> pyval \<Rightarrow> snapshot" where
  "Snapshot now base_path bucket hosts_arg keyspaces_arg table_arg =
     \<lparr>s3_bucket = bucket, name = PyStr now, hosts = hosts_arg, keyspaces = keyspaces_arg,
      table = table_arg, base_path' = base_path\<rparr>"

text \<open>
  \<^verbatim>\<open>
  def dump_manifest_file(self):
      manifest_data = {'name': self.name, 'base_path': self._base_path, 'hosts': self.hosts,
                       'keyspaces': self.keyspaces, 'table': self.table}
      return json.dumps(manifest_data)
  \<close>
  The JSON library is a collaborator: \<open>dumps\<close> and \<open>loads\<close> are parameters, each with
  the exceptions it may raise.
\<close>

definition manifest_data :: "snapshot \<Rightarrow> pyval" where
  "manifest_data s =
     PyDict [(''name'', name s), (''base_path'', base_path' s), (''hosts'', hosts s),
             (''keyspaces'', keyspaces s), (''table'', table s)]"

definition dump_manifest_file :: "(pyval \<Rightarrow> exn + string) \<Rightarrow> snapshot \<Rightarrow> exn + string" where
  "dump_manifest_file dumps s = dumps (manifest_data s)"

text \<open>
  \<^verbatim>\<open>
  def load_manifest_file(data, s3_bucket):
      manifest_data = json.loads(data)
      snapshot = Snapshot(base_path=manifest_data['base_path'], s3_bucket=s3_bucket,
                          hosts=manifest_data['hosts'], keyspaces=manifest_data['keyspaces'],
                          table=manifest_data['table'])
      snapshot.name = manifest_data['name']
      return snapshot
  \<close>
\<close>

definition load_manifest_file ::
  "(string \<Rightarrow> exn + pyval) \<Rightarrow> string \<Rightarrow> string \<Rightarrow> string \<Rightarrow> exn + snapshot" where
  "load_manifest_file loads now data bucket =
     (case loads data of
        Inl e \<Rightarrow> Inl e
      | Inr md \<Rightarrow>
     (case getitem md ''base_path'' of
        Inl e \<Rightarrow> Inl e
      | Inr bp \<Rightarrow>
     (case getitem md ''hosts'' of
        Inl e \<Rightarrow> Inl e
      | Inr hs \<Rightarrow>
     (case getitem md ''keyspaces'' of
        Inl e \<Rightarrow> Inl e
      | Inr ks \<Rightarrow>
     (case getitem md ''table'' of
        Inl e \<Rightarrow> Inl e
      | Inr tb \<Rightarrow>
     (case getitem md ''name'' of
        Inl e \<Rightarrow> Inl e
      | Inr nm \<Rightarrow> Inr ((Snapshot now bp bucket hs ks tb)\<lparr>name := nm\<rparr>)))))))"

text \<open>
  \<^verbatim>\<open>
  @property
  def base_path(self):
      return '/'.join([self._base_path, self.name])
  \<close>
  Joining takes strings.
\<close>

definition base_path :: "snapshot \<Rightarrow> exn + string" where
  "base_path s =
     (case (base_path' s, name s) of
        (PyStr b, PyStr n) \<Rightarrow> Inr (b @ ''/'' @ n)
      | _ \<Rightarrow> Inl TypeError)"

text \<open>
  \<^verbatim>\<open>
  def unix_time_name(self):
      dt = datetime.strptime(self.name, self.SNAPSHOT_TIMESTAMP_FORMAT)
      return time.mktime(dt.timetuple()) * 1000
  \<close>
  Parsing a text in the format \<^verbatim>\<open>%Y%m%d%H%M%S\<close> and converting it with the time zone of the
  machine is the library's work: \<open>timestamp_ms\<close> is a parameter, the milliseconds for a
  text, or the exception for a text that is not in the format. A name that is no string
  raises \<^verbatim>\<open>TypeError\<close>.
\<close>

definition unix_time_name :: "(string \<Rightarrow> exn + int) \<Rightarrow> snapshot \<Rightarrow> exn + int" where
  "unix_time_name timestamp_ms s =
     (case name s of
        PyStr text \<Rightarrow> timestamp_ms text
      | _ \<Rightarrow> Inl TypeError)"

section \<open>BackupWorker\<close>

text \<open>
  The fields of \<^verbatim>\<open>BackupWorker\<close> that the modelled methods read. \<open>cassandra_data_path\<close>
  is a string, the empty string standing for \<^verbatim>\<open>None\<close> too where it is tested for truth.
\<close>

record backup_worker =
  cassandra_data_path :: string
  backup_schema :: bool

definition ALL_SNAPSHOTS :: string where
  "ALL_SNAPSHOTS = ''__ALL_SNAPSHOTS__''"

subsection \<open>A full backup run\<close>

text \<open>
  The cluster-wide steps that \<^verbatim>\<open>snapshot\<close> calls, each a method of the worker that fans
  out to the hosts or writes to the object store. A run is about one snapshot, so a step
  names only what else it is given: the snapshot name to clear, the
  \<^verbatim>\<open>incremental_backups\<close> flag. What a step does on the cluster is the collaborators' work:
  \<open>outcome step\<close> is the exception it raises, if any. A run returns the exception that
  leaves it, if any, and the steps it has called, in order. Log lines are left out.
\<close>

datatype step =
    ClearClusterBackups
  | ClearClusterSnapshot pyval
  | StartClusterBackup bool
  | UploadClusterBackups bool
  | WriteRingDescription
  | WriteSnapshotManifest
  | WriteSchema

definition perform :: "(step \<Rightarrow> exn option) \<Rightarrow> step \<Rightarrow> step list \<Rightarrow> exn option \<times> step list" where
  "perform outcome st tr = (outcome st, tr @ [st])"

text \<open>
  \<^verbatim>\<open>
  if delete_backups:
      if not self.cassandra_data_path:   logging.warn(...)
      elif not snapshot.keyspaces:       logging.warn(...)
      else:                              self.clear_cluster_backups(snapshot)
  if delete_old_snapshots:
      self.clear_cluster_snapshot(self.ALL_SNAPSHOTS)
  \<close>
\<close>

definition prepare_cluster ::
  "(step \<Rightarrow> exn option) \<Rightarrow> backup_worker \<Rightarrow> snapshot \<Rightarrow> bool \<Rightarrow> bool \<Rightarrow> step list \<Rightarrow>
   exn option \<times> step list" where
  "prepare_cluster outcome w s delete_old_snapshots delete_backups tr =
     (case (if delete_backups \<and> cassandra_data_path w \<noteq> [] \<and> truthy (keyspaces s)
            then perform outcome ClearClusterBackups tr
            else (None, tr)) of
        (Some e, tr1) \<Rightarrow> (Some e, tr1)
      | (None, tr1) \<Rightarrow>
          (if delete_old_snapshots
           then perform outcome (ClearClusterSnapshot (PyStr ALL_SNAPSHOTS)) tr1
           else (None, tr1)))"

text \<open>
  \<^verbatim>\<open>
  self.write_ring_description(snapshot)
  self.write_snapshot_manifest(snapshot)
  if self.backup_schema:
      self.write_schema(snapshot)
  \<close>
\<close>

definition publish_metadata ::
  "(step \<Rightarrow> exn option) \<Rightarrow> backup_worker \<Rightarrow> step list \<Rightarrow> exn option \<times> step list" where
  "publish_metadata outcome w tr =
     (case perform outcome WriteRingDescription tr of
        (Some e, tr1) \<Rightarrow> (Some e, tr1)
      | (None, tr1) \<Rightarrow>
     (case perform outcome WriteSnapshotManifest tr1 of
        (Some e, tr2) \<Rightarrow> (Some e, tr2)
      | (None, tr2) \<Rightarrow>
          (if backup_schema w then perform outcome WriteSchema tr2 else (None, tr2))))"

text \<open>
  \<^verbatim>\<open>
  try:
      self.start_cluster_backup(snapshot, incremental_backups=False)
  except:
      self.clear_cluster_snapshot(snapshot.name)
      raise

  try:
      self.upload_cluster_backups(snapshot, incremental_backups=False)
  finally:
      if not keep_new_snapshot:
          self.clear_cluster_snapshot(snapshot.name)
  ... publish ...
  \<close>
  The bare \<^verbatim>\<open>except\<close> catches every exception. An exception raised inside the handler or
  inside the \<^verbatim>\<open>finally\<close> block takes the place of the one that was on its way.
\<close>

definition BackupWorker_snapshot ::
  "(step \<Rightarrow> exn option) \<Rightarrow> backup_worker \<Rightarrow> snapshot \<Rightarrow> bool \<Rightarrow> bool \<Rightarrow> bool \<Rightarrow>
   exn option \<times> step list" where
  "BackupWorker_snapshot outcome w s keep_new_snapshot delete_old_snapshots delete_backups =
     (case prepare_cluster outcome w s delete_old_snapshots delete_backups [] of
        (Some e, tr) \<Rightarrow> (Some e, tr)
      | (None, tr) \<Rightarrow>
     (case perform outcome (StartClusterBackup False) tr of
        (Some e, tr1) \<Rightarrow>
          (case perform outcome (ClearClusterSnapshot (name s)) tr1 of
             (Some e', tr2) \<Rightarrow> (Some e', tr2)
           | (None, tr2) \<Rightarrow> (Some e, tr2))
      | (None, tr1) \<Rightarrow>
     (case perform outcome (UploadClusterBackups False) tr1 of
        (uploaded, tr2) \<Rightarrow>
     (case (if \<not> keep_new_snapshot
            then perform outcome (ClearClusterSnapshot (name s)) tr2
            else (None, tr2)) of
        (Some e', tr3) \<Rightarrow> (Some e', tr3)
      | (None, tr3) \<Rightarrow>
          (case uploaded of
             Some e \<Rightarrow> (Some e, tr3)
           | None \<Rightarrow> publish_metadata outcome w tr3)))))"

subsection \<open>Emptying the backups directories of a node\<close>

text \<open>
  \<^verbatim>\<open>
  def clear_node_backups(self, snapshot):
      backups_dirs = []
      if snapshot.keyspaces:
          keyspace_directories = snapshot.keyspaces.split(",")
      else:
          keyspace_directories = self.run_remotely(
              'find %s -mindepth 1 -maxdepth 1 -type d' % self.cassandra_data_path).split()
      for ks in keyspace_directories:
          keyspace_dir = os.path.join(self.cassandra_data_path, ks)
          if snapshot.table:
              backups_dirs = [keyspace_dir + '/' + snapshot.table + '/backups']
          else:
              backups_dirs = self.run_remotely(
                  'find %s -mindepth 2 -name backups -type d' % keyspace_dir).split()
      for backup_dir in backups_dirs:
          self.run_remotely('find %s -mindepth 1 -delete' % backup_dir)
  \<close>
  \<open>remote command\<close> is what the node answers to a command: its output, or the exception
  of a failed command. The commands sent are kept in order.
\<close>

definition run_remotely ::
  "(string \<Rightarrow> exn + string) \<Rightarrow> string \<Rightarrow> string list \<Rightarrow> (exn + string) \<times> string list" where
  "run_remotely remote command sent = (remote command, sent @ [command])"

definition find_keyspaces_command :: "string \<Rightarrow> string" where
  "find_keyspaces_command data_path = ''find '' @ data_path @ '' -mindepth 1 -maxdepth 1 -type d''"

definition find_backups_command :: "string \<Rightarrow> string" where
  "find_backups_command keyspace_dir = ''find '' @ keyspace_dir @ '' -mindepth 2 -name backups -type d''"

definition delete_command :: "string \<Rightarrow> string" where
  "delete_command backup_dir = ''find '' @ backup_dir @ '' -mindepth 1 -delete''"

definition keyspace_directories ::
  "(string \<Rightarrow> exn + string) \<Rightarrow> backup_worker \<Rightarrow> snapshot \<Rightarrow> string list \<Rightarrow>
   (exn + string list) \<times> string list" where
  "keyspace_directories remote w s sent =
     (if truthy (keyspaces s) then
        (case keyspaces s of
           PyStr text \<Rightarrow> (Inr (split_on CHR '','' text), sent)
         | _ \<Rightarrow> (Inl AttributeError, sent))
      else
        (case run_remotely remote (find_keyspaces_command (cassandra_data_path w)) sent of
           (Inl e, sent') \<Rightarrow> (Inl e, sent')
         | (Inr out, sent') \<Rightarrow> (Inr (split_ws out), sent')))"

fun collect_backups_dirs ::
  "(string \<Rightarrow> exn + string) \<Rightarrow> backup_worker \<Rightarrow> snapshot \<Rightarrow> string list \<Rightarrow> string list \<Rightarrow>
   string list \<Rightarrow> (exn + string list) \<times> string list" where
  "collect_backups_dirs remote w s backups_dirs sent [] = (Inr backups_dirs, sent)"
| "collect_backups_dirs remote w s backups_dirs sent (ks # rest) =
     (let keyspace_dir = os_path_join (cassandra_data_path w) [ks] in
      if truthy (table s) then
        (case table s of
           PyStr text \<Rightarrow>
             collect_backups_dirs remote w s [keyspace_dir @ ''/'' @ text @ ''/backups''] sent rest
         | _ \<Rightarrow> (Inl TypeError, sent))
      else
        (case run_remotely remote (find_backups_command keyspace_dir) sent of
           (Inl e, sent') \<Rightarrow> (Inl e, sent')
         | (Inr out, sent') \<Rightarrow> collect_backups_dirs remote w s (split_ws out) sent' rest))"

fun delete_backups_dirs ::
  "(string \<Rightarrow> exn + string) \<Rightarrow> string list \<Rightarrow> string list \<Rightarrow> exn option \<times> string list" where
  "delete_backups_dirs remote sent [] = (None, sent)"
| "delete_backups_dirs remote sent (backup_dir # rest) =
     (case run_remotely remote (delete_command backup_dir) sent of
        (Inl e, sent') \<Rightarrow> (Some e, sent')
      | (Inr _, sent') \<Rightarrow> delete_backups_dirs remote sent' rest)"

definition clear_node_backups ::
  "(string \<Rightarrow> exn + string) \<Rightarrow> backup_worker \<Rightarrow> snapshot \<Rightarrow> exn option \<times> string list" where
  "clear_node_backups remote w s =
     (case keyspace_directories remote w s [] of
        (Inl e, sent) \<Rightarrow> (Some e, sent)
      | (Inr dirs, sent) \<Rightarrow>
     (case collect_backups_dirs remote w s [] sent dirs of
        (Inl e, sent') \<Rightarrow> (Some e, sent')
      | (Inr backups_dirs, sent') \<Rightarrow> delete_backups_dirs remote sent' backups_dirs))"

section \<open>SnapshotCollection\<close>

text \<open>
  The collaborators of the registry, as parameters: the listing of the bucket under a prefix
  with the delimiter \<^verbatim>\<open>/\<close> (the names of the entries), the content of a key, the JSON
  decoder, the clock (the name a fresh \<^verbatim>\<open>Snapshot\<close> is born with) and the conversion of a
  name into milliseconds. Each gives its result or the exception it raises.
\<close>

record platform =
  bucket_list :: "string \<Rightarrow> exn + string list"
  get_contents_as_string :: "string \<Rightarrow> exn + string"
  json_loads :: "string \<Rightarrow> exn + pyval"
  utcnow_name :: string
  timestamp_ms :: "string \<Rightarrow> exn + int"

text \<open>
  The object: bucket, base path and the cached list, \<open>None\<close> as long as it is \<^verbatim>\<open>None\<close>.
  \<open>requests\<close> is not a field of the source: it keeps the calls made to the object store,
  in order, so that they can be counted.
\<close>

datatype request = ListKeys string | GetContents string

record snapshot_collection =
  coll_s3_bucket :: string
  coll_base_path :: string
  snapshots :: "snapshot list option"
  requests :: "request list"

definition SnapshotCollection :: "string \<Rightarrow> string \<Rightarrow> snapshot_collection" where
  "SnapshotCollection path bucket =
     \<lparr>coll_s3_bucket = bucket, coll_base_path = path, snapshots = None, requests = []\<rparr>"

text \<open>
  \<^verbatim>\<open>
  def __cmp__(self, other):
      return self.unix_time_name() - other.unix_time_name()
  ...
  self.snapshots = sorted(self.snapshots, reverse=True)
  \<close>
  \<^verbatim>\<open>sorted\<close> calls the comparison only for a list of two or more elements, and then every
  element takes part in a comparison, so one name that cannot be converted makes the sort
  raise (the model raises the exception of the first such element of the list). The sign of
  the difference orders the elements. The sort is stable, and with \<^verbatim>\<open>reverse=True\<close> it
  reverses the list, sorts it in ascending order and reverses the result.
\<close>

definition time_key :: "(string \<Rightarrow> exn + int) \<Rightarrow> snapshot \<Rightarrow> int" where
  "time_key ts s = (case unix_time_name ts s of Inr t \<Rightarrow> t | Inl _ \<Rightarrow> 0)"

fun first_failure :: "(string \<Rightarrow> exn + int) \<Rightarrow> snapshot list \<Rightarrow> exn option" where
  "first_failure ts [] = None"
| "first_failure ts (s # rest) =
     (case unix_time_name ts s of Inl e \<Rightarrow> Some e | Inr _ \<Rightarrow> first_failure ts rest)"

definition sorted_reverse :: "(string \<Rightarrow> exn + int) \<Rightarrow> snapshot list \<Rightarrow> exn + snapshot list" where
  "sorted_reverse ts xs =
     (if length xs \<le> 1 then Inr xs
      else (case first_failure ts xs of
              Some e \<Rightarrow> Inl e
            | None \<Rightarrow> Inr (rev (sort_key (time_key ts) (rev xs)))))"

text \<open>
  The loop of \<^verbatim>\<open>_read_s3\<close> over the listed paths:
  \<^verbatim>\<open>
  for snap_path in snap_paths:
      mkey = Key(bucket)
      manifest_path = '/'.join([snap_path, 'manifest.json'])
      mkey.key = manifest_path
      try:
          manifest_data = mkey.get_contents_as_string()
      except S3ResponseError as e:
          continue
      try:
          self.snapshots.append(Snapshot.load_manifest_file(manifest_data, self.s3_bucket))
      except Exception as e:
          continue
  \<close>
  An exception that a handler does not catch leaves the loop with the list as it is then.
\<close>

fun load_snapshots ::
  "platform \<Rightarrow> string \<Rightarrow> snapshot list \<Rightarrow> request list \<Rightarrow> string list \<Rightarrow>
   exn option \<times> snapshot list \<times> request list" where
  "load_snapshots p bucket acc reqs [] = (None, acc, reqs)"
| "load_snapshots p bucket acc reqs (snap_path # rest) =
     (let manifest_path = snap_path @ ''/'' @ ''manifest.json'';
          reqs' = reqs @ [GetContents manifest_path]
      in case get_contents_as_string p manifest_path of
           Inl e \<Rightarrow>
             (if e = S3ResponseError then load_snapshots p bucket acc reqs' rest
              else (Some e, acc, reqs'))
         | Inr data \<Rightarrow>
             (case load_manifest_file (json_loads p) (utcnow_name p) data bucket of
                Inl e \<Rightarrow>
                  (if is_Exception e then load_snapshots p bucket acc reqs' rest
                   else (Some e, acc, reqs'))
              | Inr s \<Rightarrow> load_snapshots p bucket (acc @ [s]) reqs' rest))"

text \<open>
  \<^verbatim>\<open>
  def _read_s3(self):
      if self.snapshots:
          return
      ...
      self.snapshots = []
      s3prefix = self.base_path
      if not self.base_path.endswith('/'):
          s3prefix = '%s/' % self.base_path
      snap_paths = [snap.name for snap in bucket.list(prefix=s3prefix, delimiter='/')]
      snap_paths = [x for x in snap_paths if x != s3prefix]
      for snap_path in snap_paths: ...
      self.snapshots = sorted(self.snapshots, reverse=True)
  \<close>
  The guard is the truth value of the list: \<^verbatim>\<open>None\<close> and the empty list are both false.
  The result is the exception that leaves the method, if any, and the object as the method
  leaves it.
\<close>

definition cached :: "snapshot_collection \<Rightarrow> bool" where
  "cached c = (case snapshots c of None \<Rightarrow> False | Some xs \<Rightarrow> xs \<noteq> [])"

definition s3prefix :: "snapshot_collection \<Rightarrow> string" where
  "s3prefix c =
     (if coll_base_path c \<noteq> [] \<and> last (coll_base_path c) = CHR ''/'' then coll_base_path c
      else coll_base_path c @ ''/'')"

definition read_s3 :: "platform \<Rightarrow> snapshot_collection \<Rightarrow> exn option \<times> snapshot_collection" where
  "read_s3 p c =
     (if cached c then (None, c)
      else
        (let c1 = c\<lparr>snapshots := Some [], requests := requests c @ [ListKeys (s3prefix c)]\<rparr>
         in case bucket_list p (s3prefix c) of
              Inl e \<Rightarrow> (Some e, c1)
            | Inr names \<Rightarrow>
                (let snap_paths = filter (\<lambda>x. x \<noteq> s3prefix c) names
                 in case load_snapshots p (coll_s3_bucket c) [] (requests c1) snap_paths of
                      (Some e, loaded, reqs) \<Rightarrow>
                        (Some e, c1\<lparr>snapshots := Some loaded, requests := reqs\<rparr>)
                    | (None, loaded, reqs) \<Rightarrow>
                        (case sorted_reverse (timestamp_ms p) loaded of
                           Inl e \<Rightarrow> (Some e, c1\<lparr>snapshots := Some loaded, requests := reqs\<rparr>)
                         | Inr sorted_list \<Rightarrow>
                             (None, c1\<lparr>snapshots := Some sorted_list, requests := reqs\<rparr>)))))"

text \<open>
  \<^verbatim>\<open>__iter__\<close> reads the store and hands out the cached list.
\<close>

definition iterate :: "platform \<Rightarrow> snapshot_collection \<Rightarrow> (exn + snapshot list) \<times> snapshot_collection" where
  "iterate p c =
     (case read_s3 p c of
        (Some e, c') \<Rightarrow> (Inl e, c')
      | (None, c') \<Rightarrow> (Inr (case snapshots c' of None \<Rightarrow> [] | Some xs \<Rightarrow> xs), c'))"

text \<open>
  \<^verbatim>\<open>
  def get_snapshot_for(self, hosts, keyspaces, table):
      for snapshot in self:
          if snapshot.hosts != hosts:         continue
          if snapshot.keyspaces != keyspaces: continue
          if snapshot.table != table:         continue
          return snapshot
  \<close>
  Falling off the loop returns \<^verbatim>\<open>None\<close>.
\<close>

fun first_snapshot_for :: "pyval \<Rightarrow> pyval \<Rightarrow> pyval \<Rightarrow> snapshot list \<Rightarrow> snapshot option" where
  "first_snapshot_for h k t [] = None"
| "first_snapshot_for h k t (s # rest) =
     (if hosts s \<noteq> h then first_snapshot_for h k t rest
      else if keyspaces s \<noteq> k then first_snapshot_for h k t rest
      else if table s \<noteq> t then first_snapshot_for h k t rest
      else Some s)"

definition get_snapshot_for ::
  "platform \<Rightarrow> snapshot_collection \<Rightarrow> pyval \<Rightarrow> pyval \<Rightarrow> pyval \<Rightarrow>
   (exn + snapshot option) \<times> snapshot_collection" where
  "get_snapshot_for p c h k t =
     (case iterate p c of
        (Inl e, c') \<Rightarrow> (Inl e, c')
      | (Inr xs, c') \<Rightarrow> (Inr (first_snapshot_for h k t xs), c'))"

text \<open>
  \<^verbatim>\<open>
  def get_snapshot_by_name(self, name):
      snapshots = filter(lambda s: s.name == name, self)
      return snapshots and snapshots[0]

  def get_latest(self):
      self._read_s3()
      return self.snapshots[0]
  \<close>
  Without a snapshot of that name the first returns the empty list it has filtered, for
  which \<open>None\<close> stands here. On an empty registry the second raises \<^verbatim>\<open>IndexError\<close>.
\<close>

definition get_snapshot_by_name ::
  "platform \<Rightarrow> snapshot_collection \<Rightarrow> pyval \<Rightarrow> (exn + snapshot option) \<times> snapshot_collection" where
  "get_snapshot_by_name p c n =
     (case iterate p c of
        (Inl e, c') \<Rightarrow> (Inl e, c')
      | (Inr xs, c') \<Rightarrow>
          (case filter (\<lambda>s. name s = n) xs of
             [] \<Rightarrow> (Inr None, c')
           | s # _ \<Rightarrow> (Inr (Some s), c')))"

definition get_latest :: "platform \<Rightarrow> snapshot_collection \<Rightarrow> (exn + snapshot) \<times> snapshot_collection" where
  "get_latest p c =
     (case read_s3 p c of
        (Some e, c') \<Rightarrow> (Inl e, c')
      | (None, c') \<Rightarrow>
          (case snapshots c' of
             Some (s # _) \<Rightarrow> (Inr s, c')
           | _ \<Rightarrow> (Inl IndexError, c')))"

text \<open>
  A sequence of accesses to one object, by any caller. Only the object matters for what
  the next access does, so the values handed back are dropped; a caller may go on after
  an exception.
\<close>

datatype access =
    GetLatest
  | GetSnapshotFor pyval pyval pyval
  | GetSnapshotByName pyval
  | Iterate

fun access_collection :: "platform \<Rightarrow> snapshot_collection \<Rightarrow> access \<Rightarrow> snapshot_collection" where
  "access_collection p c GetLatest = snd (get_latest p c)"
| "access_collection p c (GetSnapshotFor h k t) = snd (get_snapshot_for p c h k t)"
| "access_collection p c (GetSnapshotByName n) = snd (get_snapshot_by_name p c n)"
| "access_collection p c Iterate = snd (iterate p c)"

definition run_accesses :: "platform \<Rightarrow> snapshot_collection \<Rightarrow> access list \<Rightarrow> snapshot_collection" where
  "run_accesses p c accesses = foldl (access_collection p) c accesses"

text \<open>The number of listings among the requests made so far.\<close>

definition is_listing :: "request \<Rightarrow> bool" where
  "is_listing r = (case r of ListKeys _ \<Rightarrow> True | GetContents _ \<Rightarrow> False)"

definition listings :: "snapshot_collection \<Rightarrow> nat" where
  "listings c = length (filter is_listing (requests c))"

subsection \<open>Order and compatibility\<close>

text \<open>
  \<open>not_older ts a b\<close>: both names convert, and \<open>a\<close>'s time is not before \<open>b\<close>'s. A list is
  in descending order of time when \<open>not_older\<close> holds between each element and every later
  one. \<open>cache_sorted\<close> says so of the cached list of a registry; it holds as long as the
  list is unset.
\<close>

definition not_older :: "(string \<Rightarrow> exn + int) \<Rightarrow> snapshot \<Rightarrow> snapshot \<Rightarrow> bool" where
  "not_older ts a b =
     (case unix_time_name ts a of
        Inl _ \<Rightarrow> False
      | Inr ta \<Rightarrow> (case unix_time_name ts b of Inl _ \<Rightarrow> False | Inr tb \<Rightarrow> tb \<le> ta))"

definition cache_sorted :: "(string \<Rightarrow> exn + int) \<Rightarrow> snapshot_collection \<Rightarrow> bool" where
  "cache_sorted ts c =
     (case snapshots c of None \<Rightarrow> True | Some xs \<Rightarrow> sorted_wrt (not_older ts) xs)"

text \<open>The three comparisons of \<^verbatim>\<open>get_snapshot_for\<close>, none of which reads the name.\<close>

definition compatible :: "snapshot \<Rightarrow> pyval \<Rightarrow> pyval \<Rightarrow> pyval \<Rightarrow> bool" where
  "compatible s h k t \<longleftrightarrow> hosts s = h \<and> keyspaces s = k \<and> table s = t"

section \<open>Example collaborators\<close>

text \<open>
  Instances of the parameters, for the examples below. \<open>json_text\<close> writes a value as JSON
  text in the layout of \<^verbatim>\<open>json.dumps\<close> for strings of printable ASCII characters;
  \<open>decode_known docs\<close> decodes the texts of the given documents and rejects every other
  text.
\<close>

fun json_string :: "string \<Rightarrow> string" where
  "json_string [] = []"
| "json_string (c # cs) =
     (if c = CHR 0x22 \<or> c = CHR 0x5C then CHR 0x5C # c # json_string cs
      else c # json_string cs)"

fun comma_separated :: "string list \<Rightarrow> string" where
  "comma_separated [] = []"
| "comma_separated [x] = x"
| "comma_separated (x # y # rest) = x @ '', '' @ comma_separated (y # rest)"

fun json_text :: "pyval \<Rightarrow> string" where
  "json_text PyNone = ''null''"
| "json_text (PyStr s) = CHR 0x22 # json_string s @ [CHR 0x22]"
| "json_text (PyList xs) = ''['' @ comma_separated (map json_text xs) @ '']''"
| "json_text (PyDict kvs) =
     ''{'' @ comma_separated
              (map (\<lambda>(key, v). CHR 0x22 # json_string key @ [CHR 0x22] @ '': '' @ json_text v) kvs)
      @ ''}''"

definition decode_known :: "pyval list \<Rightarrow> string \<Rightarrow> exn + pyval" where
  "decode_known docs data =
     (case find (\<lambda>doc. json_text doc = data) docs of
        None \<Rightarrow> Inl ValueError
      | Some doc \<Rightarrow> Inr doc)"

text \<open>
  A conversion of names for a machine on UTC: a name of fourteen digits that is a date and
  a time of day gives the milliseconds since 1970, any other text \<^verbatim>\<open>ValueError\<close>.
\<close>

definition digit :: "char \<Rightarrow> nat option" where
  "digit c =
     (let code = (of_char c :: nat)
      in if 48 \<le> code \<and> code \<le> 57 then Some (code - 48) else None)"

fun number :: "nat \<Rightarrow> string \<Rightarrow> nat option" where
  "number acc [] = Some acc"
| "number acc (c # cs) =
     (case digit c of None \<Rightarrow> None | Some v \<Rightarrow> number (10 * acc + v) cs)"

definition leap_year :: "nat \<Rightarrow> bool" where
  "leap_year y \<longleftrightarrow> (y mod 4 = 0 \<and> y mod 100 \<noteq> 0) \<or> y mod 400 = 0"

definition days_in_month :: "nat \<Rightarrow> nat \<Rightarrow> nat" where
  "days_in_month y m =
     (if m = 2 then (if leap_year y then 29 else 28)
      else if m \<in> {4, 6, 9, 11} then 30 else 31)"

definition days_from_civil :: "nat \<Rightarrow> nat \<Rightarrow> nat \<Rightarrow> int" where
  "days_from_civil y m d =
     (let y' = int y - (if m \<le> 2 then 1 else 0);
          era = y' div 400;
          yoe = y' - era * 400;
          doy = (153 * (int m + (if m > 2 then -3 else 9)) + 2) div 5 + int d - 1;
          doe = yoe * 365 + yoe div 4 - yoe div 100 + doy
      in era * 146097 + doe - 719468)"

definition utc_timestamp_ms :: "string \<Rightarrow> exn + int" where
  "utc_timestamp_ms text =
     (if length text \<noteq> 14 then Inl ValueError
      else
        (case (number 0 (take 4 text), number 0 (take 2 (drop 4 text)),
               number 0 (take 2 (drop 6 text)), number 0 (take 2 (drop 8 text)),
               number 0 (take 2 (drop 10 text)), number 0 (take 2 (drop 12 text))) of
           (Some y, Some m, Some d, Some hh, Some mm, Some ss) \<Rightarrow>
             (if 1 \<le> y \<and> 1 \<le> m \<and> m \<le> 12 \<and> 1 \<le> d \<and> d \<le> days_in_month y m \<and>
                 hh < 24 \<and> mm < 60 \<and> ss < 60
              then Inr (1000 * (days_from_civil y m d * 86400 + int hh * 3600 + int mm * 60 + int ss))
              else Inl ValueError)
         | _ \<Rightarrow> Inl ValueError))"

text \<open>
  Two snapshots of the same hosts, keyspaces and table, and a store that holds their
  manifests under \<^verbatim>\<open>backups/\<close>; the listing names the older one first. \<open>empty_store\<close>
  lists nothing.
\<close>

definition january :: snapshot where
  "january = (Snapshot ''20230101000000'' (PyStr ''backups'') ''bucket''
     (PyList [PyStr ''h1'', PyStr ''h2'']) (PyStr ''ks1'') (PyStr []))"

definition june :: snapshot where
  "june = (Snapshot ''20230601120000'' (PyStr ''backups'') ''bucket''
     (PyList [PyStr ''h1'', PyStr ''h2'']) (PyStr ''ks1'') (PyStr []))"

definition example_store :: platform where
  "example_store =
     \<lparr>bucket_list = (\<lambda>prefix.
        if prefix = ''backups/''
        then Inr [''backups/'', ''backups/20230101000000/'', ''backups/20230601120000/'']
        else Inr []),
      get_contents_as_string = (\<lambda>path.
        if path = ''backups/20230101000000//manifest.json'' then Inr (json_text (manifest_data january))
        else if path = ''backups/20230601120000//manifest.json'' then Inr (json_text (manifest_data june))
        else Inl S3ResponseError),
      json_loads = decode_known [manifest_data january, manifest_data june],
      utcnow_name = ''20240101000000'',
      timestamp_ms = utc_timestamp_ms\<rparr>"

definition empty_store :: platform where
  "empty_store =
     \<lparr>bucket_list = (\<lambda>prefix. Inr []),
      get_contents_as_string = (\<lambda>path. Inl S3ResponseError),
      json_loads = decode_known [],
      utcnow_name = ''20240101000000'',
      timestamp_ms = utc_timestamp_ms\<rparr>"

section \<open>Properties\<close>

subsection \<open>The retry loop\<close>

lemma download_loop_success:
  "retry_count < MAX_RETRY_COUNT \<Longrightarrow> body n = Inr u \<Longrightarrow>
   download_snappy_key_loop body key_size retry_count n = (Inr (Some key_size), Suc n)"
  by (simp add: download_snappy_key_loop.simps [of body key_size retry_count n])

lemma download_loop_retry:
  "Suc retry_count < MAX_RETRY_COUNT \<Longrightarrow> body n = Inl e \<Longrightarrow> is_Exception e \<Longrightarrow>
   download_snappy_key_loop body key_size retry_count n =
   download_snappy_key_loop body key_size (Suc retry_count) (Suc n)"
  by (simp add: download_snappy_key_loop.simps [of body key_size retry_count n])

lemma download_loop_give_up:
  "retry_count < MAX_RETRY_COUNT \<Longrightarrow> MAX_RETRY_COUNT \<le> Suc retry_count \<Longrightarrow>
   body n = Inl e \<Longrightarrow>
   download_snappy_key_loop body key_size retry_count n = (Inl e, Suc n)"
  by (simp add: download_snappy_key_loop.simps [of body key_size retry_count n])

lemma download_first_try:
  "body 0 = Inr u \<Longrightarrow> download_snappy_key body key_size = (Inr (Some key_size), 1)"
  by (simp add: download_snappy_key_def download_loop_success MAX_RETRY_COUNT_def)

lemma download_second_try:
  "body 0 = Inl e0 \<Longrightarrow> is_Exception e0 \<Longrightarrow> body 1 = Inr u \<Longrightarrow>
   download_snappy_key body key_size = (Inr (Some key_size), 2)"
  by (simp add: download_snappy_key_def download_loop_retry download_loop_success
      MAX_RETRY_COUNT_def numeral_2_eq_2)

lemma download_third_try:
  "body 0 = Inl e0 \<Longrightarrow> is_Exception e0 \<Longrightarrow> body 1 = Inl e1 \<Longrightarrow> is_Exception e1 \<Longrightarrow>
   body 2 = Inr u \<Longrightarrow> download_snappy_key body key_size = (Inr (Some key_size), 3)"
  by (simp add: download_snappy_key_def download_loop_retry download_loop_success
      MAX_RETRY_COUNT_def numeral_2_eq_2 numeral_3_eq_3)

lemma download_exhausted:
  "body 0 = Inl e0 \<Longrightarrow> is_Exception e0 \<Longrightarrow> body 1 = Inl e1 \<Longrightarrow> is_Exception e1 \<Longrightarrow>
   body 2 = Inl e2 \<Longrightarrow> download_snappy_key body key_size = (Inl e2, 3)"
  by (simp add: download_snappy_key_def download_loop_retry download_loop_give_up
      MAX_RETRY_COUNT_def numeral_2_eq_2 numeral_3_eq_3)

lemma download_keys_abort:
  assumes "local_source w = []" and "dst_from_key w nm = Inr dst"
    and "fetch env nm dst 0 = Inl e0" and "is_Exception e0"
    and "fetch env nm dst 1 = Inl e1" and "is_Exception e1"
    and "fetch env nm dst 2 = Inl e2"
  shows "download_keys env w (S3Key nm sz # rest) total_size d = (Inl e2, d)"
  using assms download_exhausted [of "fetch env nm dst" e0 e1 e2 sz]
  by (simp add: download_keys_def meth_def download_key_def)

text \<open>
  Claim C7. An exception in the transfer of one item makes \<^verbatim>\<open>download_snappy_key\<close> run
  the transfer again, three runs at most: the first run that succeeds ends the call with
  the size of the key and no further run is made; after three failed runs the exception
  of the last one leaves the call, and the batch that holds the item (\<^verbatim>\<open>_download_keys\<close>)
  ends with it. The exceptions retried are those that \<^verbatim>\<open>except Exception\<close> catches.
\<close>

theorem download_snappy_key_retries:
  "(body 0 = Inr () \<longrightarrow> download_snappy_key body key_size = (Inr (Some key_size), 1))
   \<and> (\<forall>e0. body 0 = Inl e0 \<and> is_Exception e0 \<and> body 1 = Inr () \<longrightarrow>
         download_snappy_key body key_size = (Inr (Some key_size), 2))
   \<and> (\<forall>e0 e1. body 0 = Inl e0 \<and> is_Exception e0 \<and> body 1 = Inl e1 \<and> is_Exception e1 \<and>
         body 2 = Inr () \<longrightarrow>
         download_snappy_key body key_size = (Inr (Some key_size), 3))
   \<and> (\<forall>e0 e1 e2. body 0 = Inl e0 \<and> is_Exception e0 \<and> body 1 = Inl e1 \<and> is_Exception e1 \<and>
         body 2 = Inl e2 \<longrightarrow>
         download_snappy_key body key_size = (Inl e2, 3)
         \<and> (\<forall>env w nm dst rest total_size d.
               local_source w = [] \<and> dst_from_key w nm = Inr dst \<and> fetch env nm dst = body \<longrightarrow>
               download_keys env w (S3Key nm key_size # rest) total_size d = (Inl e2, d)))"
proof (intro conjI allI impI)
  assume "body 0 = Inr ()"
  then show "download_snappy_key body key_size = (Inr (Some key_size), 1)"
    by (rule download_first_try)
next
  fix e0
  assume "body 0 = Inl e0 \<and> is_Exception e0 \<and> body 1 = Inr ()"
  then show "download_snappy_key body key_size = (Inr (Some key_size), 2)"
    by (simp add: download_second_try)
next
  fix e0 e1
  assume "body 0 = Inl e0 \<and> is_Exception e0 \<and> body 1 = Inl e1 \<and> is_Exception e1 \<and>
    body 2 = Inr ()"
  then show "download_snappy_key body key_size = (Inr (Some key_size), 3)"
    by (simp add: download_third_try)
next
  fix e0 e1 e2
  assume "body 0 = Inl e0 \<and> is_Exception e0 \<and> body 1 = Inl e1 \<and> is_Exception e1 \<and>
    body 2 = Inl e2"
  then show "download_snappy_key body key_size = (Inl e2, 3)"
    by (simp add: download_exhausted)
next
  fix e0 e1 e2 nm dst rest total_size d
    and env :: transfer_env and w :: restore_worker
  assume fails: "body 0 = Inl e0 \<and> is_Exception e0 \<and> body 1 = Inl e1 \<and> is_Exception e1 \<and>
    body 2 = Inl e2"
  assume "local_source w = [] \<and> dst_from_key w nm = Inr dst \<and> fetch env nm dst = body"
  with fails show "download_keys env w (S3Key nm key_size # rest) total_size d = (Inl e2, d)"
    by (simp add: download_keys_abort [of w nm dst env e0 e1 e2])
qed

theorem download_snappy_key_retries_witness:
  "download_snappy_key (\<lambda>n. Inr ()) 42 = (Inr (Some 42), 1)
   \<and> download_snappy_key (\<lambda>n. if n < 1 then Inl (OtherException ''reset'') else Inr ()) 42
       = (Inr (Some 42), 2)
   \<and> download_snappy_key (\<lambda>n. if n < 2 then Inl (OtherException ''reset'') else Inr ()) 42
       = (Inr (Some 42), 3)
   \<and> download_snappy_key (\<lambda>n. Inl (OtherException ''reset'')) 42
       = (Inl (OtherException ''reset''), 3)
   \<and> download_keys
        \<lparr>copy2 = (\<lambda>src dst. None), getsize = (\<lambda>path. Inr 0),
         fetch = (\<lambda>nm dst n. Inl (OtherException ''reset''))\<rparr>
        (set_matcher (RestoreWorker [] ''.'') ''ks1'' [] [''nodeA'', ''nodeB''])
        [S3Key ''backups/20230101000000/nodeA/ks1/cf1/data.db'' 42,
         S3Key ''backups/20230101000000/nodeB/ks1/cf1/data.db'' 7] 49 []
       = (Inl (OtherException ''reset''), [])"
proof -
  have dst: "dst_from_key (set_matcher (RestoreWorker [] ''.'') ''ks1'' [] [''nodeA'', ''nodeB''])
       ''backups/20230101000000/nodeA/ks1/cf1/data.db'' = Inr ''./ks1/cf1/nodeA_data.db''"
    by code_simp
  have src: "local_source (set_matcher (RestoreWorker [] ''.'') ''ks1'' [] [''nodeA'', ''nodeB'']) = []"
    by (simp add: set_matcher_def RestoreWorker_def)
  show ?thesis
    using download_snappy_key_retries [of "\<lambda>n. Inr ()" 42]
      download_snappy_key_retries [of "\<lambda>n. if n < 1 then Inl (OtherException ''reset'') else Inr ()" 42]
      download_snappy_key_retries [of "\<lambda>n. if n < 2 then Inl (OtherException ''reset'') else Inr ()" 42]
      download_snappy_key_retries [of "\<lambda>n. Inl (OtherException ''reset'')" 42]
      dst src
    by simp
qed

subsection \<open>Destinations in the merge directory\<close>

lemma os_path_join_segments:
  assumes "m \<noteq> []" "last m \<noteq> CHR ''/''" "segment g2" "segment g3" "hd nm \<noteq> CHR ''/''"
  shows "os_path_join m [g2, g3, nm] = m @ ''/'' @ g2 @ ''/'' @ g3 @ ''/'' @ nm"
  using assms by (simp add: os_path_join_def join_step_def segment_def)

lemma merge_name_no_slash:
  "host = [] \<or> hd host \<noteq> CHR ''/'' \<Longrightarrow> hd (host @ ''_'' @ f) \<noteq> CHR ''/''"
  by (cases host) auto

lemma dst_from_key_formula:
  assumes "keyspace_table_matcher w = Some matcher" "matcher path = Some (host, ks, tb)"
    and "merge_dir w \<noteq> []" "last (merge_dir w) \<noteq> CHR ''/''"
    and "segment ks" "segment tb" "host = [] \<or> hd host \<noteq> CHR ''/''"
  shows "dst_from_key w path =
    Inr (merge_dir w @ ''/'' @ ks @ ''/'' @ tb @ ''/'' @ host @ ''_'' @
         last (split_on (path_separator w) path))"
proof -
  have "hd (host @ ''_'' @ last (split_on (path_separator w) path)) \<noteq> CHR ''/''"
    using assms(7) by (rule merge_name_no_slash)
  then have "os_path_join (merge_dir w) [ks, tb, host @ ''_'' @ last (split_on (path_separator w) path)]
    = merge_dir w @ ''/'' @ ks @ ''/'' @ tb @ ''/'' @ (host @ ''_'' @ last (split_on (path_separator w) path))"
    using assms(3-6) by (intro os_path_join_segments)
  then show ?thesis using assms(1,2) by (simp add: dst_from_key_def)
qed

lemma meth_success:
  assumes "meth env w key d = (Inr r, d')"
  shows "\<exists>dst. dst_from_key w (item_path key) = Inr dst \<and> d' = (dst, item_path key) # d"
  using assms
  by (auto simp: meth_def copy_key_def download_key_def item_path_def
      split: if_splits item.splits sum.splits option.splits)

text \<open>
  Claim C6. A file that the pattern matches goes to
  \<^verbatim>\<open><merge_dir>/<keyspace>/<table>/<host>_<file name>\<close>, where host, keyspace and table are the
  three groups of the match and the file name is the last piece of the path. Two files of
  the same name, keyspace and table whose hosts differ get different destinations, and
  after both transfers each destination holds its own file.
\<close>

theorem dst_from_key_keeps_hosts_apart:
  assumes "keyspace_table_matcher w = Some matcher"
    and "merge_dir w \<noteq> []" and "last (merge_dir w) \<noteq> CHR ''/''"
  shows
    "(\<forall>path host ks tb.
        matcher path = Some (host, ks, tb) \<and> segment ks \<and> segment tb \<and>
        (host = [] \<or> hd host \<noteq> CHR ''/'') \<longrightarrow>
        dst_from_key w path =
          Inr (merge_dir w @ ''/'' @ ks @ ''/'' @ tb @ ''/'' @ host @ ''_'' @
               last (split_on (path_separator w) path)))
     \<and> (\<forall>pathA pathB hostA hostB ks tb.
          matcher pathA = Some (hostA, ks, tb) \<and> matcher pathB = Some (hostB, ks, tb) \<and>
          segment ks \<and> segment tb \<and>
          (hostA = [] \<or> hd hostA \<noteq> CHR ''/'') \<and> (hostB = [] \<or> hd hostB \<noteq> CHR ''/'') \<and>
          last (split_on (path_separator w) pathA) = last (split_on (path_separator w) pathB) \<and>
          hostA \<noteq> hostB \<longrightarrow>
          dst_from_key w pathA \<noteq> dst_from_key w pathB
          \<and> (\<forall>env keyA keyB d rA dA rB dB dstA dstB.
                item_path keyA = pathA \<and> item_path keyB = pathB \<and>
                meth env w keyA d = (Inr rA, dA) \<and> meth env w keyB dA = (Inr rB, dB) \<and>
                dst_from_key w pathA = Inr dstA \<and> dst_from_key w pathB = Inr dstB \<longrightarrow>
                map_of dB dstA = Some pathA \<and> map_of dB dstB = Some pathB))"
proof (intro conjI allI impI)
  fix path host ks tb
  assume "matcher path = Some (host, ks, tb) \<and> segment ks \<and> segment tb \<and>
    (host = [] \<or> hd host \<noteq> CHR ''/'')"
  with assms dst_from_key_formula [of w matcher path host ks tb]
  show "dst_from_key w path =
      Inr (merge_dir w @ ''/'' @ ks @ ''/'' @ tb @ ''/'' @ host @ ''_'' @
           last (split_on (path_separator w) path))"
    by blast
next
  fix pathA pathB hostA hostB ks tb
  assume h: "matcher pathA = Some (hostA, ks, tb) \<and> matcher pathB = Some (hostB, ks, tb) \<and>
    segment ks \<and> segment tb \<and>
    (hostA = [] \<or> hd hostA \<noteq> CHR ''/'') \<and> (hostB = [] \<or> hd hostB \<noteq> CHR ''/'') \<and>
    last (split_on (path_separator w) pathA) = last (split_on (path_separator w) pathB) \<and>
    hostA \<noteq> hostB"
  have a: "dst_from_key w pathA =
      Inr (merge_dir w @ ''/'' @ ks @ ''/'' @ tb @ ''/'' @ hostA @ ''_'' @
           last (split_on (path_separator w) pathA))"
    using assms h dst_from_key_formula [of w matcher pathA hostA ks tb] by blast
  have b: "dst_from_key w pathB =
      Inr (merge_dir w @ ''/'' @ ks @ ''/'' @ tb @ ''/'' @ hostB @ ''_'' @
           last (split_on (path_separator w) pathB))"
    using assms h dst_from_key_formula [of w matcher pathB hostB ks tb] by blast
  from h have "hostA @ ''_'' @ last (split_on (path_separator w) pathA)
      \<noteq> hostB @ ''_'' @ last (split_on (path_separator w) pathB)"
    by simp
  with a b show differ: "dst_from_key w pathA \<noteq> dst_from_key w pathB"
    by simp
  fix env keyA keyB d rA dA rB dB dstA dstB
  assume t: "item_path keyA = pathA \<and> item_path keyB = pathB \<and>
    meth env w keyA d = (Inr rA, dA) \<and> meth env w keyB dA = (Inr rB, dB) \<and>
    dst_from_key w pathA = Inr dstA \<and> dst_from_key w pathB = Inr dstB"
  from t meth_success [of env w keyA d rA dA] have dA: "dA = (dstA, pathA) # d"
    by auto
  from t meth_success [of env w keyB dA rB dB] have dB: "dB = (dstB, pathB) # dA"
    by auto
  from differ t have "dstA \<noteq> dstB"
    by auto
  with dA dB show "map_of dB dstA = Some pathA" and "map_of dB dstB = Some pathB"
    by simp_all
qed

theorem dst_from_key_keeps_hosts_apart_witness:
  "dst_from_key (set_matcher (RestoreWorker ''/data/backups'' ''.'') ''ks1'' [] [''nodeA'', ''nodeB''])
     ''/data/backups/20230101000000/nodeA/ks1/cf1/data.db'' = Inr ''./ks1/cf1/nodeA_data.db''
   \<and> dst_from_key (set_matcher (RestoreWorker ''/data/backups'' ''.'') ''ks1'' [] [''nodeA'', ''nodeB''])
     ''/data/backups/20230101000000/nodeB/ks1/cf1/data.db'' = Inr ''./ks1/cf1/nodeB_data.db''
   \<and> map_of (snd (download_keys
        \<lparr>copy2 = (\<lambda>src dst. None), getsize = (\<lambda>path. Inr 42), fetch = (\<lambda>nm dst n. Inr ())\<rparr>
        (set_matcher (RestoreWorker ''/data/backups'' ''.'') ''ks1'' [] [''nodeA'', ''nodeB''])
        [LocalPath ''/data/backups/20230101000000/nodeA/ks1/cf1/data.db'',
         LocalPath ''/data/backups/20230101000000/nodeB/ks1/cf1/data.db''] 84 []))
        ''./ks1/cf1/nodeA_data.db'' = Some ''/data/backups/20230101000000/nodeA/ks1/cf1/data.db''
   \<and> map_of (snd (download_keys
        \<lparr>copy2 = (\<lambda>src dst. None), getsize = (\<lambda>path. Inr 42), fetch = (\<lambda>nm dst n. Inr ())\<rparr>
        (set_matcher (RestoreWorker ''/data/backups'' ''.'') ''ks1'' [] [''nodeA'', ''nodeB''])
        [LocalPath ''/data/backups/20230101000000/nodeA/ks1/cf1/data.db'',
         LocalPath ''/data/backups/20230101000000/nodeB/ks1/cf1/data.db''] 84 []))
        ''./ks1/cf1/nodeB_data.db'' = Some ''/data/backups/20230101000000/nodeB/ks1/cf1/data.db''"
proof -
  define w where "w = set_matcher (RestoreWorker ''/data/backups'' ''.'') ''ks1'' [] [''nodeA'', ''nodeB'']"
  define m where "m = keyspace_table_search [''nodeA'', ''nodeB''] ''ks1'' []"
  define env where "env = \<lparr>copy2 = (\<lambda>src dst. None), getsize = (\<lambda>path. Inr (42::int)),
    fetch = (\<lambda>nm dst n. (Inr () :: exn + unit))\<rparr>"
  define pA where "pA = ''/data/backups/20230101000000/nodeA/ks1/cf1/data.db''"
  define pB where "pB = ''/data/backups/20230101000000/nodeB/ks1/cf1/data.db''"
  have w: "keyspace_table_matcher w = Some m" "merge_dir w \<noteq> []" "last (merge_dir w) \<noteq> CHR ''/''"
    "path_separator w = CHR ''/''" "local_source w \<noteq> []" "merge_dir w = ''.''"
    by (simp_all add: w_def m_def set_matcher_def RestoreWorker_def os_path_sep_def)
  have mA: "m pA = Some (''nodeA'', ''ks1'', ''cf1'')" unfolding m_def pA_def by code_simp
  have mB: "m pB = Some (''nodeB'', ''ks1'', ''cf1'')" unfolding m_def pB_def by code_simp
  have seg: "segment ''ks1''" "segment ''cf1''" by (simp_all add: segment_def)
  have fA: "last (split_on CHR ''/'' pA) = ''data.db''" unfolding pA_def by code_simp
  have fB: "last (split_on CHR ''/'' pB) = ''data.db''" unfolding pB_def by code_simp
  note apart = dst_from_key_keeps_hosts_apart [OF w(1) w(2) w(3)]
  note formula = apart [THEN conjunct1, rule_format]
  note both = apart [THEN conjunct2, rule_format, THEN conjunct2, rule_format]
  from formula [of pA "''nodeA''" "''ks1''" "''cf1''"] mA seg w(4,6) fA
  have dA: "dst_from_key w pA = Inr ''./ks1/cf1/nodeA_data.db''"
    by simp
  from formula [of pB "''nodeB''" "''ks1''" "''cf1''"] mB seg w(4,6) fB
  have dB: "dst_from_key w pB = Inr ''./ks1/cf1/nodeB_data.db''"
    by simp
  have run1: "meth env w (LocalPath pA) [] = (Inr (Some 42), [(''./ks1/cf1/nodeA_data.db'', pA)])"
    using dA w(5) by (simp add: meth_def copy_key_def env_def)
  have run2: "meth env w (LocalPath pB) [(''./ks1/cf1/nodeA_data.db'', pA)]
      = (Inr (Some 42), [(''./ks1/cf1/nodeB_data.db'', pB), (''./ks1/cf1/nodeA_data.db'', pA)])"
    using dB w(5) by (simp add: meth_def copy_key_def env_def)
  have batch: "snd (download_keys env w [LocalPath pA, LocalPath pB] 84 [])
      = [(''./ks1/cf1/nodeB_data.db'', pB), (''./ks1/cf1/nodeA_data.db'', pA)]"
    using run1 run2 by (simp add: download_keys_def)
  from both [of pA "''nodeA''" "''ks1''" "''cf1''" pB "''nodeB''" "LocalPath pA" "LocalPath pB"
      env "[]" "Some 42" "[(''./ks1/cf1/nodeA_data.db'', pA)]" "Some 42"
      "[(''./ks1/cf1/nodeB_data.db'', pB), (''./ks1/cf1/nodeA_data.db'', pA)]"
      "''./ks1/cf1/nodeA_data.db''" "''./ks1/cf1/nodeB_data.db''"]
    mA mB seg w(4) fA fB run1 run2 dA dB
  have "map_of [(''./ks1/cf1/nodeB_data.db'', pB), (''./ks1/cf1/nodeA_data.db'', pA)] ''./ks1/cf1/nodeA_data.db'' = Some pA
      \<and> map_of [(''./ks1/cf1/nodeB_data.db'', pB), (''./ks1/cf1/nodeA_data.db'', pA)] ''./ks1/cf1/nodeB_data.db'' = Some pB"
    by (simp add: item_path_def)
  with dA dB batch show ?thesis
    unfolding w_def env_def pA_def pB_def by simp
qed

text \<open>
  Claim C9, at a restore from the object store: \<^verbatim>\<open>_download_key\<close> hands back \<^verbatim>\<open>None\<close> for a
  key that was fetched without an error, so the loop of \<^verbatim>\<open>_download_keys\<close> raises
  \<^verbatim>\<open>TypeError\<close> at its first addition; \<^verbatim>\<open>_copy_key\<close> hands back the size and the loop adds
  the sizes up.
\<close>

theorem download_key_returns_no_size:
  "download_key
     \<lparr>copy2 = (\<lambda>src dst. None), getsize = (\<lambda>path. Inr 42), fetch = (\<lambda>nm dst n. Inr ())\<rparr>
     (set_matcher (RestoreWorker [] ''.'') ''ks1'' [] [''nodeA'', ''nodeB''])
     (S3Key ''backups/20230101000000/nodeA/ks1/cf1/data.db'' 42) []
     = (Inr None, [(''./ks1/cf1/nodeA_data.db'', ''backups/20230101000000/nodeA/ks1/cf1/data.db'')])
   \<and> download_keys
     \<lparr>copy2 = (\<lambda>src dst. None), getsize = (\<lambda>path. Inr 42), fetch = (\<lambda>nm dst n. Inr ())\<rparr>
     (set_matcher (RestoreWorker [] ''.'') ''ks1'' [] [''nodeA'', ''nodeB''])
     [S3Key ''backups/20230101000000/nodeA/ks1/cf1/data.db'' 42] 42 []
     = (Inl TypeError, [(''./ks1/cf1/nodeA_data.db'', ''backups/20230101000000/nodeA/ks1/cf1/data.db'')])
   \<and> copy_key
     \<lparr>copy2 = (\<lambda>src dst. None), getsize = (\<lambda>path. Inr 42), fetch = (\<lambda>nm dst n. Inr ())\<rparr>
     (set_matcher (RestoreWorker ''/data/backups'' ''.'') ''ks1'' [] [''nodeA'', ''nodeB''])
     (LocalPath ''/data/backups/20230101000000/nodeA/ks1/cf1/data.db'') []
     = (Inr (Some 42), [(''./ks1/cf1/nodeA_data.db'', ''/data/backups/20230101000000/nodeA/ks1/cf1/data.db'')])
   \<and> fst (download_keys
     \<lparr>copy2 = (\<lambda>src dst. None), getsize = (\<lambda>path. Inr 42), fetch = (\<lambda>nm dst n. Inr ())\<rparr>
     (set_matcher (RestoreWorker ''/data/backups'' ''.'') ''ks1'' [] [''nodeA'', ''nodeB''])
     [LocalPath ''/data/backups/20230101000000/nodeA/ks1/cf1/data.db'',
      LocalPath ''/data/backups/20230101000000/nodeB/ks1/cf1/data.db''] 84 [])
     = Inr 84"
proof -
  have s3: "dst_from_key (set_matcher (RestoreWorker [] ''.'') ''ks1'' [] [''nodeA'', ''nodeB''])
      ''backups/20230101000000/nodeA/ks1/cf1/data.db'' = Inr ''./ks1/cf1/nodeA_data.db''"
    by code_simp
  have la: "dst_from_key (set_matcher (RestoreWorker ''/data/backups'' ''.'') ''ks1'' [] [''nodeA'', ''nodeB''])
      ''/data/backups/20230101000000/nodeA/ks1/cf1/data.db'' = Inr ''./ks1/cf1/nodeA_data.db''"
    by code_simp
  have lb: "dst_from_key (set_matcher (RestoreWorker ''/data/backups'' ''.'') ''ks1'' [] [''nodeA'', ''nodeB''])
      ''/data/backups/20230101000000/nodeB/ks1/cf1/data.db'' = Inr ''./ks1/cf1/nodeB_data.db''"
    by code_simp
  have src: "local_source (set_matcher (RestoreWorker [] ''.'') ''ks1'' [] [''nodeA'', ''nodeB'']) = []"
    "local_source (set_matcher (RestoreWorker ''/data/backups'' ''.'') ''ks1'' [] [''nodeA'', ''nodeB'']) \<noteq> []"
    by (simp_all add: set_matcher_def RestoreWorker_def)
  have fetched: "fst (download_snappy_key (\<lambda>n. Inr ()) 42) = Inr (Some 42)"
    by (simp add: download_first_try)
  show ?thesis
    using s3 la lb src fetched
    by (simp add: download_keys_def meth_def download_key_def copy_key_def)
qed

lemma download_key_never_a_size: "fst (download_key env w key d) \<noteq> Inr (Some n)"
  by (auto simp: download_key_def split: item.splits sum.splits)

subsection \<open>A full backup run\<close>

lemma prepare_cluster_steps:
  "set (snd (prepare_cluster outcome w s delete_old delete_bk [])) \<subseteq>
     {ClearClusterBackups, ClearClusterSnapshot (PyStr ALL_SNAPSHOTS)}"
  by (auto simp: prepare_cluster_def perform_def split: if_splits option.splits)

lemma snapshot_after_failed_start:
  assumes "prepare_cluster outcome w s delete_old delete_bk [] = (None, tr)"
    and "outcome (StartClusterBackup False) = Some e"
  shows "BackupWorker_snapshot outcome w s keep delete_old delete_bk =
    ((case outcome (ClearClusterSnapshot (name s)) of None \<Rightarrow> Some e | Some e' \<Rightarrow> Some e'),
     tr @ [StartClusterBackup False, ClearClusterSnapshot (name s)])"
  using assms by (simp add: BackupWorker_snapshot_def perform_def split: option.splits)

lemma snapshot_after_start:
  assumes "prepare_cluster outcome w s delete_old delete_bk [] = (None, tr)"
    and "outcome (StartClusterBackup False) = None"
  shows "BackupWorker_snapshot outcome w s keep delete_old delete_bk =
    (if keep then
       (case outcome (UploadClusterBackups False) of
          Some e \<Rightarrow> (Some e, tr @ [StartClusterBackup False, UploadClusterBackups False])
        | None \<Rightarrow> publish_metadata outcome w (tr @ [StartClusterBackup False, UploadClusterBackups False]))
     else
       (case outcome (ClearClusterSnapshot (name s)) of
          Some e' \<Rightarrow> (Some e', tr @ [StartClusterBackup False, UploadClusterBackups False,
                                     ClearClusterSnapshot (name s)])
        | None \<Rightarrow>
            (case outcome (UploadClusterBackups False) of
               Some e \<Rightarrow> (Some e, tr @ [StartClusterBackup False, UploadClusterBackups False,
                                         ClearClusterSnapshot (name s)])
             | None \<Rightarrow> publish_metadata outcome w
                         (tr @ [StartClusterBackup False, UploadClusterBackups False,
                                ClearClusterSnapshot (name s)]))))"
  using assms by (simp add: BackupWorker_snapshot_def perform_def split: option.splits)

lemma publish_metadata_steps:
  "\<exists>published. snd (publish_metadata outcome w tr) = tr @ published \<and>
     set published \<subseteq> {WriteRingDescription, WriteSnapshotManifest, WriteSchema}"
  by (auto simp: publish_metadata_def perform_def split: option.splits)

text \<open>
  Claim C4. When the cluster-wide snapshot step of a full run raises, the run clears the
  snapshot of that name on the cluster and ends with an exception: the one of the snapshot
  step when the clearing went through. No upload and no publication of metadata follows.
\<close>

theorem failed_snapshot_step_is_cleared:
  assumes "prepare_cluster outcome w s delete_old delete_bk [] = (None, tr)"
    and "outcome (StartClusterBackup False) = Some e"
  shows
    "snd (BackupWorker_snapshot outcome w s keep delete_old delete_bk) =
       tr @ [StartClusterBackup False, ClearClusterSnapshot (name s)]
     \<and> fst (BackupWorker_snapshot outcome w s keep delete_old delete_bk) \<noteq> None
     \<and> (outcome (ClearClusterSnapshot (name s)) = None \<longrightarrow>
          fst (BackupWorker_snapshot outcome w s keep delete_old delete_bk) = Some e)
     \<and> (\<forall>st \<in> set (snd (BackupWorker_snapshot outcome w s keep delete_old delete_bk)).
          st \<noteq> UploadClusterBackups False \<and> st \<noteq> UploadClusterBackups True \<and>
          st \<noteq> WriteRingDescription \<and> st \<noteq> WriteSnapshotManifest \<and> st \<noteq> WriteSchema)"
proof -
  have run: "BackupWorker_snapshot outcome w s keep delete_old delete_bk =
    ((case outcome (ClearClusterSnapshot (name s)) of None \<Rightarrow> Some e | Some e' \<Rightarrow> Some e'),
     tr @ [StartClusterBackup False, ClearClusterSnapshot (name s)])"
    using assms by (rule snapshot_after_failed_start)
  have "set tr \<subseteq> {ClearClusterBackups, ClearClusterSnapshot (PyStr ALL_SNAPSHOTS)}"
    using prepare_cluster_steps [of outcome w s delete_old delete_bk] assms(1) by simp
  then have "\<forall>st \<in> set (tr @ [StartClusterBackup False, ClearClusterSnapshot (name s)]).
      st \<noteq> UploadClusterBackups False \<and> st \<noteq> UploadClusterBackups True \<and>
      st \<noteq> WriteRingDescription \<and> st \<noteq> WriteSnapshotManifest \<and> st \<noteq> WriteSchema"
    by auto
  with run show ?thesis
    by (simp split: option.splits)
qed

theorem failed_snapshot_step_is_cleared_witness:
  "BackupWorker_snapshot
     (\<lambda>st. if st = StartClusterBackup False then Some (OtherException ''nodetool failed'') else None)
     \<lparr>cassandra_data_path = ''/var/lib/cassandra/data/'', backup_schema = True\<rparr>
     (Snapshot ''20230601120000'' (PyStr ''backups'') ''bucket''
        (PyList [PyStr ''h1'', PyStr ''h2'']) (PyStr ''ks1'') (PyStr ''''))
     False True True
   = (Some (OtherException ''nodetool failed''),
      [ClearClusterBackups, ClearClusterSnapshot (PyStr ''__ALL_SNAPSHOTS__''),
       StartClusterBackup False, ClearClusterSnapshot (PyStr ''20230601120000'')])"
proof -
  define outcome where "outcome = (\<lambda>st. if st = StartClusterBackup False
    then Some (OtherException ''nodetool failed'') else None)"
  define w where "w = \<lparr>cassandra_data_path = ''/var/lib/cassandra/data/'', backup_schema = True\<rparr>"
  define s where "s = Snapshot ''20230601120000'' (PyStr ''backups'') ''bucket''
        (PyList [PyStr ''h1'', PyStr ''h2'']) (PyStr ''ks1'') (PyStr '''')"
  have pre: "prepare_cluster outcome w s True True [] =
      (None, [ClearClusterBackups, ClearClusterSnapshot (PyStr ''__ALL_SNAPSHOTS__'')])"
    by (simp add: prepare_cluster_def perform_def outcome_def w_def s_def Snapshot_def
        ALL_SNAPSHOTS_def)
  have start: "outcome (StartClusterBackup False) = Some (OtherException ''nodetool failed'')"
    by (simp add: outcome_def)
  have clear: "outcome (ClearClusterSnapshot (name s)) = None"
    by (simp add: outcome_def)
  have nm: "name s = PyStr ''20230601120000''"
    by (simp add: s_def Snapshot_def)
  from failed_snapshot_step_is_cleared [OF pre start, of False] clear nm
  have "BackupWorker_snapshot outcome w s False True True
      = (Some (OtherException ''nodetool failed''),
         [ClearClusterBackups, ClearClusterSnapshot (PyStr ''__ALL_SNAPSHOTS__''),
          StartClusterBackup False, ClearClusterSnapshot (PyStr ''20230601120000'')])"
    by (simp add: prod_eq_iff)
  then show ?thesis
    unfolding outcome_def w_def s_def .
qed

text \<open>
  Claim C5. Once the snapshot step of a full run has gone through, the upload is called,
  and unless \<^verbatim>\<open>keep_new_snapshot\<close> is set the snapshot of that name is cleared on the cluster
  right after it, whether the upload raised or not; an exception of the upload leaves the
  run after the clearing. With \<^verbatim>\<open>keep_new_snapshot\<close> set no snapshot is cleared after the
  snapshot step.
\<close>

theorem new_snapshot_cleared_after_upload:
  assumes "prepare_cluster outcome w s delete_old delete_bk [] = (None, tr)"
    and "outcome (StartClusterBackup False) = None"
  shows
    "(\<not> keep \<longrightarrow>
        take (length tr + 3) (snd (BackupWorker_snapshot outcome w s keep delete_old delete_bk)) =
          tr @ [StartClusterBackup False, UploadClusterBackups False,
                ClearClusterSnapshot (name s)])
     \<and> (\<forall>e. \<not> keep \<and> outcome (UploadClusterBackups False) = Some e \<and>
              outcome (ClearClusterSnapshot (name s)) = None \<longrightarrow>
          BackupWorker_snapshot outcome w s keep delete_old delete_bk =
            (Some e, tr @ [StartClusterBackup False, UploadClusterBackups False,
                           ClearClusterSnapshot (name s)]))
     \<and> (keep \<longrightarrow>
          (\<exists>rest. snd (BackupWorker_snapshot outcome w s keep delete_old delete_bk) =
                    tr @ [StartClusterBackup False, UploadClusterBackups False] @ rest
                  \<and> (\<forall>st \<in> set rest. \<forall>n. st \<noteq> ClearClusterSnapshot n)))"
proof (intro conjI allI impI)
  note run = snapshot_after_start [OF assms, of keep]
  obtain published where published:
    "snd (publish_metadata outcome w (tr @ [StartClusterBackup False, UploadClusterBackups False,
        ClearClusterSnapshot (name s)])) =
      (tr @ [StartClusterBackup False, UploadClusterBackups False,
        ClearClusterSnapshot (name s)]) @ published"
    using publish_metadata_steps by blast
  {
    assume "\<not> keep"
    with run published
    show "take (length tr + 3) (snd (BackupWorker_snapshot outcome w s keep delete_old delete_bk)) =
        tr @ [StartClusterBackup False, UploadClusterBackups False, ClearClusterSnapshot (name s)]"
      by (simp split: option.splits)
  }
  {
    fix e
    assume "\<not> keep \<and> outcome (UploadClusterBackups False) = Some e \<and>
      outcome (ClearClusterSnapshot (name s)) = None"
    with run show "BackupWorker_snapshot outcome w s keep delete_old delete_bk =
        (Some e, tr @ [StartClusterBackup False, UploadClusterBackups False,
                       ClearClusterSnapshot (name s)])"
      by simp
  }
  {
    assume keep
    obtain kept where kept:
      "snd (publish_metadata outcome w (tr @ [StartClusterBackup False, UploadClusterBackups False])) =
        (tr @ [StartClusterBackup False, UploadClusterBackups False]) @ kept"
      "set kept \<subseteq> {WriteRingDescription, WriteSnapshotManifest, WriteSchema}"
      using publish_metadata_steps by blast
    show "\<exists>rest. snd (BackupWorker_snapshot outcome w s keep delete_old delete_bk) =
          tr @ [StartClusterBackup False, UploadClusterBackups False] @ rest
        \<and> (\<forall>st \<in> set rest. \<forall>n. st \<noteq> ClearClusterSnapshot n)"
    proof (cases "outcome (UploadClusterBackups False)")
      case None
      with run \<open>keep\<close> kept(1)
      have "snd (BackupWorker_snapshot outcome w s keep delete_old delete_bk) =
          tr @ [StartClusterBackup False, UploadClusterBackups False] @ kept"
        by simp
      moreover from kept(2) have "\<forall>st \<in> set kept. \<forall>n. st \<noteq> ClearClusterSnapshot n"
        by auto
      ultimately show ?thesis by blast
    next
      case (Some e)
      with run \<open>keep\<close>
      have "snd (BackupWorker_snapshot outcome w s keep delete_old delete_bk) =
          tr @ [StartClusterBackup False, UploadClusterBackups False] @ []"
        by simp
      then show ?thesis by (intro exI [of _ "[]"]) simp
    qed
  }
qed

theorem new_snapshot_cleared_after_upload_witness:
  "BackupWorker_snapshot
     (\<lambda>st. if st = UploadClusterBackups False then Some (OtherException ''upload failed'') else None)
     \<lparr>cassandra_data_path = ''/var/lib/cassandra/data/'', backup_schema = False\<rparr>
     (Snapshot ''20230601120000'' (PyStr ''backups'') ''bucket''
        (PyList [PyStr ''h1'', PyStr ''h2'']) (PyStr ''ks1'') (PyStr ''''))
     False False False
   = (Some (OtherException ''upload failed''),
      [StartClusterBackup False, UploadClusterBackups False,
       ClearClusterSnapshot (PyStr ''20230601120000'')])
   \<and> (\<exists>rest. snd (BackupWorker_snapshot
     (\<lambda>st. if st = UploadClusterBackups False then Some (OtherException ''upload failed'') else None)
     \<lparr>cassandra_data_path = ''/var/lib/cassandra/data/'', backup_schema = False\<rparr>
     (Snapshot ''20230601120000'' (PyStr ''backups'') ''bucket''
        (PyList [PyStr ''h1'', PyStr ''h2'']) (PyStr ''ks1'') (PyStr ''''))
     True False False) = [StartClusterBackup False, UploadClusterBackups False] @ rest
     \<and> (\<forall>st \<in> set rest. \<forall>n. st \<noteq> ClearClusterSnapshot n))"
proof -
  define outcome where "outcome = (\<lambda>st. if st = UploadClusterBackups False
    then Some (OtherException ''upload failed'') else None)"
  define w where "w = \<lparr>cassandra_data_path = ''/var/lib/cassandra/data/'', backup_schema = False\<rparr>"
  define s where "s = Snapshot ''20230601120000'' (PyStr ''backups'') ''bucket''
        (PyList [PyStr ''h1'', PyStr ''h2'']) (PyStr ''ks1'') (PyStr '''')"
  have pre: "prepare_cluster outcome w s False False [] = (None, [])"
    by (simp add: prepare_cluster_def)
  have start: "outcome (StartClusterBackup False) = None"
    by (simp add: outcome_def)
  have upload: "outcome (UploadClusterBackups False) = Some (OtherException ''upload failed'')"
    by (simp add: outcome_def)
  have clear: "outcome (ClearClusterSnapshot (name s)) = None"
    by (simp add: outcome_def)
  have nm: "name s = PyStr ''20230601120000''"
    by (simp add: s_def Snapshot_def)
  from new_snapshot_cleared_after_upload [OF pre start, of False] upload clear nm
  have a: "BackupWorker_snapshot outcome w s False False False
      = (Some (OtherException ''upload failed''),
         [StartClusterBackup False, UploadClusterBackups False,
          ClearClusterSnapshot (PyStr ''20230601120000'')])"
    by simp
  from new_snapshot_cleared_after_upload [OF pre start, of True]
  have b: "\<exists>rest. snd (BackupWorker_snapshot outcome w s True False False) =
        [StartClusterBackup False, UploadClusterBackups False] @ rest
      \<and> (\<forall>st \<in> set rest. \<forall>n. st \<noteq> ClearClusterSnapshot n)"
    by simp
  from a b show ?thesis
    unfolding outcome_def w_def s_def by blast
qed

subsection \<open>Emptying the backups directories\<close>

lemma collect_backups_dirs_found:
  assumes "\<not> truthy (table s)"
    and "\<forall>ks \<in> set kss.
           remote (find_backups_command (os_path_join (cassandra_data_path w) [ks])) = Inr (out ks)"
  shows "collect_backups_dirs remote w s backups_dirs sent kss =
    (Inr (if kss = [] then backups_dirs else split_ws (out (last kss))),
     sent @ map (\<lambda>ks. find_backups_command (os_path_join (cassandra_data_path w) [ks])) kss)"
  using assms(2)
proof (induction kss arbitrary: backups_dirs sent)
  case Nil
  show ?case by simp
next
  case (Cons ks rest)
  from Cons.prems
  have here: "remote (find_backups_command (os_path_join (cassandra_data_path w) [ks])) = Inr (out ks)"
    and later: "\<forall>ks \<in> set rest.
      remote (find_backups_command (os_path_join (cassandra_data_path w) [ks])) = Inr (out ks)"
    by simp_all
  show ?case
    using assms(1) here Cons.IH [OF later]
    by (simp add: run_remotely_def Let_def)
qed

lemma delete_backups_dirs_sent:
  "\<exists>n. snd (delete_backups_dirs remote sent dirs) = sent @ take n (map delete_command dirs)"
proof (induction dirs arbitrary: sent)
  case Nil
  show ?case by simp
next
  case (Cons backup_dir rest)
  show ?case
  proof (cases "remote (delete_command backup_dir)")
    case (Inl e)
    then have "snd (delete_backups_dirs remote sent (backup_dir # rest)) =
        sent @ take (Suc 0) (map delete_command (backup_dir # rest))"
      by (simp add: run_remotely_def)
    then show ?thesis ..
  next
    case (Inr out)
    from Cons.IH [of "sent @ [delete_command backup_dir]"]
    obtain n where "snd (delete_backups_dirs remote (sent @ [delete_command backup_dir]) rest) =
         (sent @ [delete_command backup_dir]) @ take n (map delete_command rest)" ..
    with Inr
    have "snd (delete_backups_dirs remote sent (backup_dir # rest)) =
        sent @ take (Suc n) (map delete_command (backup_dir # rest))"
      by (simp add: run_remotely_def)
    then show ?thesis ..
  qed
qed

lemma delete_backups_dirs_all:
  "fst (delete_backups_dirs remote sent dirs) = None \<Longrightarrow>
   snd (delete_backups_dirs remote sent dirs) = sent @ map delete_command dirs"
proof (induction dirs arbitrary: sent)
  case Nil
  show ?case by simp
next
  case (Cons backup_dir rest)
  show ?case
  proof (cases "remote (delete_command backup_dir)")
    case (Inl e)
    with Cons.prems show ?thesis
      by (simp add: run_remotely_def)
  next
    case (Inr out)
    with Cons.prems
    have "fst (delete_backups_dirs remote (sent @ [delete_command backup_dir]) rest) = None"
      by (simp add: run_remotely_def)
    from Cons.IH [OF this] Inr show ?thesis
      by (simp add: run_remotely_def)
  qed
qed

lemma split_on_nonempty: "split_on sep s \<noteq> []"
  by (induction s) (auto split: list.splits)

text \<open>
  Claim C10. For a snapshot whose keyspaces field names several keyspaces and whose table
  is empty, \<^verbatim>\<open>clear_node_backups\<close> first looks for the backups directories of every
  keyspace, one command per keyspace, and then sends delete commands only for the
  directories that the last of these commands has found: all of them when no delete
  command fails, the first ones up to the failing one otherwise.
\<close>

theorem clear_node_backups_last_keyspace_only:
  assumes "keyspaces s = PyStr text" and "1 < length (split_on CHR '','' text)"
    and "\<not> truthy (table s)"
    and "\<forall>ks \<in> set (split_on CHR '','' text).
           remote (find_backups_command (os_path_join (cassandra_data_path w) [ks])) = Inr (out ks)"
  shows
    "(\<exists>n. snd (clear_node_backups remote w s) =
        map (\<lambda>ks. find_backups_command (os_path_join (cassandra_data_path w) [ks]))
          (split_on CHR '','' text)
        @ take n (map delete_command (split_ws (out (last (split_on CHR '','' text))))))
     \<and> (fst (clear_node_backups remote w s) = None \<longrightarrow>
          snd (clear_node_backups remote w s) =
            map (\<lambda>ks. find_backups_command (os_path_join (cassandra_data_path w) [ks]))
              (split_on CHR '','' text)
            @ map delete_command (split_ws (out (last (split_on CHR '','' text)))))"
proof -
  let ?kss = "split_on CHR '','' text"
  let ?finds = "map (\<lambda>ks. find_backups_command (os_path_join (cassandra_data_path w) [ks])) ?kss"
  have "text \<noteq> []"
  proof
    assume "text = []"
    with assms(2) show False by simp
  qed
  with assms(1) have dirs: "keyspace_directories remote w s [] = (Inr ?kss, [])"
    by (simp add: keyspace_directories_def)
  have "?kss \<noteq> []"
    by (rule split_on_nonempty)
  with collect_backups_dirs_found [OF assms(3) assms(4), of "[]" "[]"]
  have found: "collect_backups_dirs remote w s [] [] ?kss =
      (Inr (split_ws (out (last ?kss))), ?finds)"
    by simp
  from dirs found
  have run: "clear_node_backups remote w s =
      delete_backups_dirs remote ?finds (split_ws (out (last ?kss)))"
    by (simp add: clear_node_backups_def)
  from delete_backups_dirs_sent [of remote ?finds "split_ws (out (last ?kss))"] run
  have "\<exists>n. snd (clear_node_backups remote w s) =
      ?finds @ take n (map delete_command (split_ws (out (last ?kss))))"
    by simp
  moreover
  from delete_backups_dirs_all [of remote ?finds "split_ws (out (last ?kss))"] run
  have "fst (clear_node_backups remote w s) = None \<longrightarrow>
      snd (clear_node_backups remote w s) =
        ?finds @ map delete_command (split_ws (out (last ?kss)))"
    by simp
  ultimately show ?thesis ..
qed

theorem clear_node_backups_last_keyspace_only_witness:
  "clear_node_backups
     (\<lambda>command.
        if command = ''find /var/lib/cassandra/data/ks1 -mindepth 2 -name backups -type d''
        then Inr ''/var/lib/cassandra/data/ks1/cf1/backups''
        else if command = ''find /var/lib/cassandra/data/ks2 -mindepth 2 -name backups -type d''
        then Inr ''/var/lib/cassandra/data/ks2/cf2/backups''
        else Inr [])
     \<lparr>cassandra_data_path = ''/var/lib/cassandra/data/'', backup_schema = False\<rparr>
     (Snapshot ''20230601120000'' (PyStr ''backups'') ''bucket''
        (PyList [PyStr ''h1'']) (PyStr ''ks1,ks2'') (PyStr ''''))
   = (None,
      [''find /var/lib/cassandra/data/ks1 -mindepth 2 -name backups -type d'',
       ''find /var/lib/cassandra/data/ks2 -mindepth 2 -name backups -type d'',
       ''find /var/lib/cassandra/data/ks2/cf2/backups -mindepth 1 -delete''])"
proof -
  define remote :: "string \<Rightarrow> exn + string" where "remote = (\<lambda>command.
        if command = ''find /var/lib/cassandra/data/ks1 -mindepth 2 -name backups -type d''
        then Inr ''/var/lib/cassandra/data/ks1/cf1/backups''
        else if command = ''find /var/lib/cassandra/data/ks2 -mindepth 2 -name backups -type d''
        then Inr ''/var/lib/cassandra/data/ks2/cf2/backups''
        else Inr [])"
  define w where "w = \<lparr>cassandra_data_path = ''/var/lib/cassandra/data/'', backup_schema = False\<rparr>"
  define s where "s = Snapshot ''20230601120000'' (PyStr ''backups'') ''bucket''
        (PyList [PyStr ''h1'']) (PyStr ''ks1,ks2'') (PyStr '''')"
  define out where "out = (\<lambda>ks. if ks = ''ks1'' then ''/var/lib/cassandra/data/ks1/cf1/backups''
    else ''/var/lib/cassandra/data/ks2/cf2/backups'')"
  have kss: "split_on CHR '','' ''ks1,ks2'' = [''ks1'', ''ks2'']"
    by code_simp
  have ks: "keyspaces s = PyStr ''ks1,ks2''" and tb: "\<not> truthy (table s)"
    by (simp_all add: s_def Snapshot_def)
  have many: "1 < length (split_on CHR '','' ''ks1,ks2'')"
    by (simp add: kss)
  have finds: "\<forall>ks \<in> set (split_on CHR '','' ''ks1,ks2'').
      remote (find_backups_command (os_path_join (cassandra_data_path w) [ks])) = Inr (out ks)"
    by (simp add: kss remote_def w_def out_def find_backups_command_def os_path_join_def
        join_step_def)
  have dirs: "split_ws (out ''ks2'') = [''/var/lib/cassandra/data/ks2/cf2/backups'']"
    unfolding out_def by code_simp
  have deleted: "remote (delete_command ''/var/lib/cassandra/data/ks2/cf2/backups'') = Inr []"
    by (simp add: remote_def delete_command_def)
  have ok: "fst (clear_node_backups remote w s) = None"
    using ks tb finds deleted dirs
    by (simp add: clear_node_backups_def keyspace_directories_def kss run_remotely_def
        collect_backups_dirs_found [where out = out] out_def)
  from clear_node_backups_last_keyspace_only [OF ks many tb finds] ok
  have "snd (clear_node_backups remote w s) =
      map (\<lambda>ks. find_backups_command (os_path_join (cassandra_data_path w) [ks])) [''ks1'', ''ks2'']
      @ map delete_command [''/var/lib/cassandra/data/ks2/cf2/backups'']"
    by (auto simp: kss dirs)
  then have "snd (clear_node_backups remote w s) =
      [''find /var/lib/cassandra/data/ks1 -mindepth 2 -name backups -type d'',
       ''find /var/lib/cassandra/data/ks2 -mindepth 2 -name backups -type d'',
       ''find /var/lib/cassandra/data/ks2/cf2/backups -mindepth 1 -delete'']"
    by (simp add: w_def find_backups_command_def delete_command_def os_path_join_def join_step_def)
  with ok show ?thesis
    unfolding remote_def w_def s_def by (simp add: prod_eq_iff)
qed

subsection \<open>The registry\<close>

lemma first_failure_None:
  "first_failure ts xs = None \<Longrightarrow> s \<in> set xs \<Longrightarrow> \<exists>t. unix_time_name ts s = Inr t"
  by (induction xs) (auto split: sum.splits)

lemma not_older_time_key:
  assumes "unix_time_name ts a = Inr ta" and "unix_time_name ts b = Inr tb"
  shows "not_older ts a b \<longleftrightarrow> time_key ts b \<le> time_key ts a"
  using assms by (simp add: not_older_def time_key_def)

lemma sorted_reverse_sorted:
  assumes "sorted_reverse ts xs = Inr ys"
  shows "sorted_wrt (not_older ts) ys"
proof (cases "length xs \<le> 1")
  case True
  with assms have "ys = xs" by (simp add: sorted_reverse_def)
  moreover from True have "xs = [] \<or> (\<exists>x. xs = [x])"
    by (cases xs) auto
  ultimately show ?thesis by auto
next
  case False
  with assms have none: "first_failure ts xs = None"
    and ys: "ys = rev (sort_key (time_key ts) (rev xs))"
    by (auto simp: sorted_reverse_def split: option.splits)
  have "sorted (map (time_key ts) (sort_key (time_key ts) (rev xs)))"
    by (rule sorted_sort_key)
  then have "sorted_wrt (\<lambda>a b. time_key ts a \<le> time_key ts b) (sort_key (time_key ts) (rev xs))"
    by (simp add: sorted_map)
  then have desc: "sorted_wrt (\<lambda>a b. time_key ts b \<le> time_key ts a) ys"
    by (simp add: ys sorted_wrt_rev)
  have "set ys = set xs"
    by (simp add: ys)
  with none have parsed: "\<And>s. s \<in> set ys \<Longrightarrow> \<exists>t. unix_time_name ts s = Inr t"
    by (auto dest: first_failure_None)
  show ?thesis
  proof (rule sorted_wrt_mono_rel [OF _ desc])
    fix a b
    assume "a \<in> set ys" "b \<in> set ys" "time_key ts b \<le> time_key ts a"
    with parsed [of a] parsed [of b] show "not_older ts a b"
      by (auto simp: not_older_time_key)
  qed
qed

lemma read_s3_cached: "cached c \<Longrightarrow> read_s3 p c = (None, c)"
  by (simp add: read_s3_def)

lemma read_s3_populates:
  assumes "\<not> cached c" and "read_s3 p c = (None, c')"
  shows "\<exists>loaded xs. sorted_reverse (timestamp_ms p) loaded = Inr xs \<and> snapshots c' = Some xs"
  using assms
  by (auto simp: read_s3_def Let_def split: sum.splits prod.splits option.splits)

lemma read_s3_keeps_sorted:
  assumes "cache_sorted (timestamp_ms p) c" and "read_s3 p c = (None, c')"
  shows "\<exists>xs. snapshots c' = Some xs \<and> sorted_wrt (not_older (timestamp_ms p)) xs"
proof (cases "cached c")
  case True
  with assms(2) have "c' = c" by (simp add: read_s3_cached)
  with True assms(1) show ?thesis
    by (auto simp: cached_def cache_sorted_def split: option.splits)
next
  case False
  from read_s3_populates [OF False assms(2)] show ?thesis
    by (auto dest: sorted_reverse_sorted)
qed

lemma iterate_sorted:
  assumes "cache_sorted (timestamp_ms p) c" and "iterate p c = (Inr xs, c')"
  shows "snapshots c' = Some xs \<and> sorted_wrt (not_older (timestamp_ms p)) xs"
proof -
  from assms(2) have read: "read_s3 p c = (None, c')"
    and xs: "xs = (case snapshots c' of None \<Rightarrow> [] | Some ys \<Rightarrow> ys)"
    by (auto simp: iterate_def split: prod.splits option.splits)
  from read_s3_keeps_sorted [OF assms(1) read] xs show ?thesis
    by auto
qed

lemma sorted_later_first:
  assumes "sorted_wrt (not_older ts) xs" and "i < length xs" and "j < length xs"
    and "unix_time_name ts (xs ! i) = Inr ta" and "unix_time_name ts (xs ! j) = Inr tb"
    and "tb < ta"
  shows "i < j"
proof (rule ccontr)
  assume "\<not> i < j"
  then consider "i = j" | "j < i" by linarith
  then show False
  proof cases
    case 1
    with assms(4,5,6) show False by simp
  next
    case 2
    with assms(1,2) have "not_older ts (xs ! j) (xs ! i)"
      by (simp add: sorted_wrt_iff_nth_less)
    with assms(4,5,6) show False
      by (simp add: not_older_def)
  qed
qed

text \<open>
  Claim C3. The list that an iteration over the registry hands out is in descending order
  of the time that the names stand for: of two snapshots of the list with different
  times, the later one comes first. The registry is one whose cached list, if set, is in
  that order, as it is from the start and after every population that has returned.
\<close>

theorem iteration_is_sorted_by_time:
  assumes "cache_sorted (timestamp_ms p) c" and "iterate p c = (Inr xs, c')"
  shows
    "sorted_wrt (not_older (timestamp_ms p)) xs
     \<and> (\<forall>i j ta tb. i < length xs \<and> j < length xs \<and>
           unix_time_name (timestamp_ms p) (xs ! i) = Inr ta \<and>
           unix_time_name (timestamp_ms p) (xs ! j) = Inr tb \<and> tb < ta \<longrightarrow> i < j)
     \<and> cache_sorted (timestamp_ms p) c'"
proof -
  from iterate_sorted [OF assms]
  have c': "snapshots c' = Some xs" and sorted: "sorted_wrt (not_older (timestamp_ms p)) xs"
    by simp_all
  from sorted have "\<forall>i j ta tb. i < length xs \<and> j < length xs \<and>
      unix_time_name (timestamp_ms p) (xs ! i) = Inr ta \<and>
      unix_time_name (timestamp_ms p) (xs ! j) = Inr tb \<and> tb < ta \<longrightarrow> i < j"
    by (blast intro: sorted_later_first)
  moreover from c' sorted have "cache_sorted (timestamp_ms p) c'"
    by (simp add: cache_sorted_def)
  ultimately show ?thesis using sorted by blast
qed

theorem iteration_is_sorted_by_time_witness:
  "fst (iterate example_store (SnapshotCollection ''backups'' ''bucket'')) = Inr [june, january]
   \<and> name june = PyStr ''20230601120000'' \<and> name january = PyStr ''20230101000000''
   \<and> sorted_wrt (not_older (timestamp_ms example_store)) [june, january]
   \<and> cache_sorted (timestamp_ms example_store)
        (snd (iterate example_store (SnapshotCollection ''backups'' ''bucket'')))"
proof -
  have result: "fst (iterate example_store (SnapshotCollection ''backups'' ''bucket''))
      = Inr [june, january]"
    by code_simp
  then have run: "iterate example_store (SnapshotCollection ''backups'' ''bucket'')
      = (Inr [june, january], snd (iterate example_store (SnapshotCollection ''backups'' ''bucket'')))"
    by (simp add: prod_eq_iff)
  have fresh: "cache_sorted (timestamp_ms example_store) (SnapshotCollection ''backups'' ''bucket'')"
    by (simp add: cache_sorted_def SnapshotCollection_def)
  have names: "name june = PyStr ''20230601120000''" "name january = PyStr ''20230101000000''"
    by (simp_all add: june_def january_def Snapshot_def)
  from iteration_is_sorted_by_time [OF fresh run] result names show ?thesis
    by simp
qed

lemma first_snapshot_for_None:
  "first_snapshot_for h k t xs = None \<longleftrightarrow> (\<forall>s \<in> set xs. \<not> compatible s h k t)"
  by (induction xs) (auto simp: compatible_def)

lemma first_snapshot_for_Some:
  "first_snapshot_for h k t xs = Some s \<Longrightarrow>
   \<exists>i < length xs. xs ! i = s \<and> compatible s h k t \<and> (\<forall>j < i. \<not> compatible (xs ! j) h k t)"
proof (induction xs)
  case Nil
  then show ?case by simp
next
  case (Cons x xs)
  show ?case
  proof (cases "compatible x h k t")
    case True
    with Cons.prems have "s = x"
      by (auto simp: compatible_def)
    with True have "(x # xs) ! 0 = s \<and> compatible s h k t \<and>
        (\<forall>j < 0. \<not> compatible ((x # xs) ! j) h k t)"
      by simp
    then show ?thesis by (intro exI [of _ 0]) simp
  next
    case False
    with Cons.prems have "first_snapshot_for h k t xs = Some s"
      by (auto simp: compatible_def split: if_splits)
    from Cons.IH [OF this] obtain i where i: "i < length xs" "xs ! i = s" "compatible s h k t"
      "\<forall>j < i. \<not> compatible (xs ! j) h k t"
      by blast
    have "\<forall>j < Suc i. \<not> compatible ((x # xs) ! j) h k t"
    proof (intro allI impI)
      fix j assume "j < Suc i"
      with False i(4) show "\<not> compatible ((x # xs) ! j) h k t"
        by (cases j) auto
    qed
    with i(1,2,3) show ?thesis
      by (intro exI [of _ "Suc i"]) simp
  qed
qed

lemma first_match_most_recent:
  assumes "sorted_wrt (not_older ts) xs" and "i < length xs"
    and "\<forall>j < i. \<not> compatible (xs ! j) h k t"
    and "s' \<in> set xs" and "compatible s' h k t"
  shows "s' = xs ! i \<or> not_older ts (xs ! i) s'"
proof -
  from assms(4) obtain j where j: "j < length xs" "xs ! j = s'"
    by (auto simp: in_set_conv_nth)
  with assms(3,5) have "\<not> j < i" by blast
  then consider "j = i" | "i < j" by linarith
  then show ?thesis
  proof cases
    case 1
    with j show ?thesis by simp
  next
    case 2
    with assms(1) j have "not_older ts (xs ! i) s'"
      by (auto simp: sorted_wrt_iff_nth_less)
    then show ?thesis ..
  qed
qed

text \<open>
  Claim C1. \<^verbatim>\<open>get_snapshot_for\<close> returns the first snapshot of the registry's list whose
  hosts, keyspaces and table all equal those asked for, whatever its name; the list being
  in descending order of time, no snapshot of the list that also matches is more recent.
  It returns \<^verbatim>\<open>None\<close> exactly when no snapshot of the list matches.
\<close>

theorem get_snapshot_for_most_recent_match:
  assumes "cache_sorted (timestamp_ms p) c" and "get_snapshot_for p c h k t = (Inr r, c')"
  shows
    "\<exists>xs. snapshots c' = Some xs
       \<and> (r = None \<longleftrightarrow> (\<forall>s \<in> set xs. \<not> compatible s h k t))
       \<and> (\<forall>s. r = Some s \<longrightarrow>
             compatible s h k t
             \<and> (\<exists>i < length xs. xs ! i = s \<and> (\<forall>j < i. \<not> compatible (xs ! j) h k t))
             \<and> (\<forall>s' \<in> set xs. compatible s' h k t \<longrightarrow>
                   s' = s \<or> not_older (timestamp_ms p) s s'))
       \<and> (\<forall>s n. compatible (s\<lparr>name := n\<rparr>) h k t = compatible s h k t)"
proof -
  from assms(2) obtain xs where it: "iterate p c = (Inr xs, c')"
    and r: "r = first_snapshot_for h k t xs"
    by (auto simp: get_snapshot_for_def split: prod.splits sum.splits)
  from iterate_sorted [OF assms(1) it]
  have c': "snapshots c' = Some xs" and sorted: "sorted_wrt (not_older (timestamp_ms p)) xs"
    by simp_all
  have none: "r = None \<longleftrightarrow> (\<forall>s \<in> set xs. \<not> compatible s h k t)"
    by (simp add: r first_snapshot_for_None)
  have some: "\<forall>s. r = Some s \<longrightarrow>
      compatible s h k t
      \<and> (\<exists>i < length xs. xs ! i = s \<and> (\<forall>j < i. \<not> compatible (xs ! j) h k t))
      \<and> (\<forall>s' \<in> set xs. compatible s' h k t \<longrightarrow> s' = s \<or> not_older (timestamp_ms p) s s')"
  proof (intro allI impI)
    fix s assume "r = Some s"
    with r have "first_snapshot_for h k t xs = Some s" by simp
    from first_snapshot_for_Some [OF this]
    obtain i where i: "i < length xs" "xs ! i = s" "compatible s h k t"
      "\<forall>j < i. \<not> compatible (xs ! j) h k t"
      by blast
    have "\<forall>s' \<in> set xs. compatible s' h k t \<longrightarrow> s' = s \<or> not_older (timestamp_ms p) s s'"
      using first_match_most_recent [OF sorted i(1) i(4)] i(2) by blast
    with i show "compatible s h k t
      \<and> (\<exists>i < length xs. xs ! i = s \<and> (\<forall>j < i. \<not> compatible (xs ! j) h k t))
      \<and> (\<forall>s' \<in> set xs. compatible s' h k t \<longrightarrow> s' = s \<or> not_older (timestamp_ms p) s s')"
      by blast
  qed
  have "\<forall>s n. compatible (s\<lparr>name := n\<rparr>) h k t = compatible s h k t"
    by (simp add: compatible_def)
  with c' none some show ?thesis by blast
qed

theorem get_snapshot_for_most_recent_match_witness:
  "fst (get_snapshot_for example_store (SnapshotCollection ''backups'' ''bucket'')
         (PyList [PyStr ''h1'', PyStr ''h2'']) (PyStr ''ks1'') (PyStr [])) = Inr (Some june)
   \<and> fst (get_snapshot_for example_store (SnapshotCollection ''backups'' ''bucket'')
         (PyList [PyStr ''h1'', PyStr ''h2'']) (PyStr ''ks1'') (PyStr ''cf1'')) = Inr None
   \<and> compatible january (PyList [PyStr ''h1'', PyStr ''h2'']) (PyStr ''ks1'') (PyStr [])
   \<and> not_older (timestamp_ms example_store) june january"
proof -
  let ?c = "SnapshotCollection ''backups'' ''bucket''"
  let ?h = "PyList [PyStr ''h1'', PyStr ''h2'']"
  have fresh: "cache_sorted (timestamp_ms example_store) ?c"
    by (simp add: cache_sorted_def SnapshotCollection_def)
  have found: "fst (get_snapshot_for example_store ?c ?h (PyStr ''ks1'') (PyStr [])) = Inr (Some june)"
    by code_simp
  have absent: "fst (get_snapshot_for example_store ?c ?h (PyStr ''ks1'') (PyStr ''cf1'')) = Inr None"
    by code_simp
  have stored: "snapshots (snd (get_snapshot_for example_store ?c ?h (PyStr ''ks1'') (PyStr [])))
      = Some [june, january]"
    by code_simp
  have jan: "compatible january ?h (PyStr ''ks1'') (PyStr [])"
    by (simp add: compatible_def january_def Snapshot_def)
  from found have run: "get_snapshot_for example_store ?c ?h (PyStr ''ks1'') (PyStr [])
      = (Inr (Some june), snd (get_snapshot_for example_store ?c ?h (PyStr ''ks1'') (PyStr [])))"
    by (simp add: prod_eq_iff)
  have "june \<noteq> january"
    by (simp add: june_def january_def Snapshot_def)
  with get_snapshot_for_most_recent_match [OF fresh run] stored jan
  have "not_older (timestamp_ms example_store) june january"
    by auto
  with found absent jan show ?thesis by simp
qed

subsection \<open>Requests to the object store\<close>

lemma load_snapshots_requests:
  "\<exists>fetched. snd (snd (load_snapshots p bucket acc reqs paths)) = reqs @ fetched
     \<and> (\<forall>r \<in> set fetched. \<not> is_listing r)"
proof (induction paths arbitrary: acc reqs)
  case Nil
  show ?case by simp
next
  case (Cons snap_path rest)
  let ?reqs = "reqs @ [GetContents (snap_path @ ''/'' @ ''manifest.json'')]"
  have stop: "\<exists>fetched. ?reqs = reqs @ fetched \<and> (\<forall>r \<in> set fetched. \<not> is_listing r)"
    by (simp add: is_listing_def)
  have go: "\<exists>fetched. snd (snd (load_snapshots p bucket acc' ?reqs rest)) = reqs @ fetched
      \<and> (\<forall>r \<in> set fetched. \<not> is_listing r)" for acc'
  proof -
    from Cons.IH [of acc' ?reqs] obtain fetched where
      "snd (snd (load_snapshots p bucket acc' ?reqs rest)) = ?reqs @ fetched"
      "\<forall>r \<in> set fetched. \<not> is_listing r"
      by blast
    then have "snd (snd (load_snapshots p bucket acc' ?reqs rest)) =
        reqs @ (GetContents (snap_path @ ''/'' @ ''manifest.json'') # fetched)
        \<and> (\<forall>r \<in> set (GetContents (snap_path @ ''/'' @ ''manifest.json'') # fetched). \<not> is_listing r)"
      by (simp add: is_listing_def)
    then show ?thesis by blast
  qed
  show ?case
    using stop go
    by (simp add: Let_def split: sum.splits) 
qed


lemma read_s3_lists_once:
  assumes "\<not> cached c"
  shows "listings (snd (read_s3 p c)) = Suc (listings c)"
proof -
  let ?listed = "requests c @ [ListKeys (s3prefix c)]"
  have one: "length (filter is_listing ?listed) = Suc (listings c)"
    by (simp add: listings_def is_listing_def)
  have loaded: "length (filter is_listing (snd (snd (load_snapshots p bucket acc ?listed paths))))
      = Suc (listings c)" for bucket acc paths
  proof -
    from load_snapshots_requests [of p bucket acc ?listed paths] obtain fetched where
      "snd (snd (load_snapshots p bucket acc ?listed paths)) = ?listed @ fetched"
      "\<forall>r \<in> set fetched. \<not> is_listing r"
      by blast
    then show ?thesis
      by (simp add: listings_def is_listing_def)
  qed
  show ?thesis
  proof (cases "bucket_list p (s3prefix c)")
    case (Inl e)
    with assms one show ?thesis
      by (simp add: read_s3_def listings_def)
  next
    case (Inr names)
    obtain r ld reqs where run: "load_snapshots p (coll_s3_bucket c) [] ?listed
        (filter (\<lambda>x. x \<noteq> s3prefix c) names) = (r, ld, reqs)"
      by (cases "load_snapshots p (coll_s3_bucket c) [] ?listed
        (filter (\<lambda>x. x \<noteq> s3prefix c) names)") auto
    from loaded [of "coll_s3_bucket c" "[]" "filter (\<lambda>x. x \<noteq> s3prefix c) names"] run
    have "length (filter is_listing reqs) = Suc (listings c)"
      by simp
    with assms Inr run show ?thesis
      by (simp add: read_s3_def listings_def Let_def split: option.splits sum.splits)
  qed
qed

lemma access_collection_reads:
  "access_collection p c a = snd (read_s3 p c)"
  by (cases a)
    (auto simp: get_latest_def get_snapshot_for_def get_snapshot_by_name_def iterate_def
      split: prod.splits option.splits list.splits sum.splits)

lemma run_accesses_cached:
  "cached c \<Longrightarrow> run_accesses p c accesses = c"
  unfolding run_accesses_def
  by (induction accesses) (simp_all add: access_collection_reads read_s3_cached)

text \<open>
  Claim C8, as the code has it. An access to a registry whose cached list is unset or
  empty lists the store once; an access to a registry whose cached list is not empty makes
  no request and leaves the object as it is. So the accesses to a new registry list the
  store once altogether if the first of them has left a list that is not empty.
\<close>

theorem cached_list_is_reused:
  "(cached c \<longrightarrow> run_accesses p c accesses = c)
   \<and> (\<not> cached c \<longrightarrow> listings (access_collection p c a) = Suc (listings c))
   \<and> (cached (access_collection p (SnapshotCollection path bucket) a) \<longrightarrow>
        listings (run_accesses p (SnapshotCollection path bucket) (a # accesses)) = 1)"
proof (intro conjI impI)
  assume "cached c"
  then show "run_accesses p c accesses = c"
    by (rule run_accesses_cached)
next
  assume "\<not> cached c"
  then show "listings (access_collection p c a) = Suc (listings c)"
    by (simp add: access_collection_reads read_s3_lists_once)
next
  let ?new = "SnapshotCollection path bucket"
  assume first: "cached (access_collection p ?new a)"
  have "\<not> cached ?new"
    by (simp add: cached_def SnapshotCollection_def)
  then have "listings (access_collection p ?new a) = Suc (listings ?new)"
    by (simp add: access_collection_reads read_s3_lists_once)
  moreover have "listings ?new = 0"
    by (simp add: listings_def SnapshotCollection_def)
  moreover have "run_accesses p ?new (a # accesses) = access_collection p ?new a"
    using run_accesses_cached [OF first, of p accesses]
    by (simp add: run_accesses_def)
  ultimately show "listings (run_accesses p ?new (a # accesses)) = 1"
    by simp
qed

theorem cached_list_is_reused_witness:
  "requests (run_accesses example_store (SnapshotCollection ''backups'' ''bucket'')
      [Iterate, GetLatest,
       GetSnapshotFor (PyList [PyStr ''h1'', PyStr ''h2'']) (PyStr ''ks1'') (PyStr []),
       GetSnapshotByName (PyStr ''20230101000000'')])
     = [ListKeys ''backups/'', GetContents ''backups/20230101000000//manifest.json'',
        GetContents ''backups/20230601120000//manifest.json'']
   \<and> listings (run_accesses example_store (SnapshotCollection ''backups'' ''bucket'')
      [Iterate, GetLatest,
       GetSnapshotFor (PyList [PyStr ''h1'', PyStr ''h2'']) (PyStr ''ks1'') (PyStr []),
       GetSnapshotByName (PyStr ''20230101000000'')]) = 1
   \<and> listings (access_collection empty_store (SnapshotCollection ''backups'' ''bucket'') Iterate) = 1"
proof -
  let ?new = "SnapshotCollection ''backups'' ''bucket''"
  let ?rest = "[GetLatest,
       GetSnapshotFor (PyList [PyStr ''h1'', PyStr ''h2'']) (PyStr ''ks1'') (PyStr []),
       GetSnapshotByName (PyStr ''20230101000000'')]"
  have first: "requests (access_collection example_store ?new Iterate)
      = [ListKeys ''backups/'', GetContents ''backups/20230101000000//manifest.json'',
         GetContents ''backups/20230601120000//manifest.json'']"
    by code_simp
  have filled: "cached (access_collection example_store ?new Iterate)"
    by code_simp
  have new: "\<not> cached ?new" "listings ?new = 0"
    by (simp_all add: cached_def listings_def SnapshotCollection_def)
  note reuse = cached_list_is_reused [of "access_collection example_store ?new Iterate"
      example_store ?rest, THEN conjunct1, rule_format, OF filled]
  note once = cached_list_is_reused [of _ example_store ?rest Iterate "''backups''" "''bucket''",
      THEN conjunct2, THEN conjunct2, rule_format, OF filled]
  note empty = cached_list_is_reused [of ?new empty_store _ Iterate,
      THEN conjunct2, THEN conjunct1, rule_format, OF new(1)]
  have "run_accesses example_store ?new (Iterate # ?rest)
      = run_accesses example_store (access_collection example_store ?new Iterate) ?rest"
    by (simp add: run_accesses_def)
  with reuse first
  have "requests (run_accesses example_store ?new (Iterate # ?rest))
      = [ListKeys ''backups/'', GetContents ''backups/20230101000000//manifest.json'',
         GetContents ''backups/20230601120000//manifest.json'']"
    by simp
  with once empty new(2) show ?thesis
    by simp
qed

text \<open>
  The claim as it is written fails for a store without snapshots: the second access lists
  the store again.
\<close>

theorem empty_registry_lists_again:
  "listings (run_accesses empty_store (SnapshotCollection ''backups'' ''bucket'') [Iterate, Iterate]) = 2
   \<and> \<not> listings (run_accesses empty_store (SnapshotCollection ''backups'' ''bucket'')
          [Iterate, Iterate]) \<le> 1"
proof -
  have "requests (run_accesses empty_store (SnapshotCollection ''backups'' ''bucket'')
      [Iterate, Iterate]) = [ListKeys ''backups/'', ListKeys ''backups/'']"
    by code_simp
  then show ?thesis
    by (simp add: listings_def is_listing_def)
qed

subsection \<open>Manifests\<close>

text \<open>
  Claim C2. Writing a snapshot as a manifest and reading the manifest back, with a bucket,
  gives a snapshot with the same name, base path, hosts, keyspaces and table, in that
  bucket. The JSON library is taken to decode what it has encoded: the dictionary decoded
  from the text of the manifest holds the values that were encoded, under the same keys.
\<close>

theorem manifest_round_trip:
  assumes "dumps (manifest_data s) = Inr data"
    and "loads data = Inr (PyDict kvs)"
    and "map_of kvs = map_of [(''name'', name s), (''base_path'', base_path' s),
           (''hosts'', hosts s), (''keyspaces'', keyspaces s), (''table'', table s)]"
  shows
    "dump_manifest_file dumps s = Inr data
     \<and> load_manifest_file loads now data bucket = Inr (s\<lparr>s3_bucket := bucket\<rparr>)
     \<and> (\<exists>s'. load_manifest_file loads now data bucket = Inr s'
            \<and> name s' = name s \<and> base_path' s' = base_path' s \<and> hosts s' = hosts s
            \<and> keyspaces s' = keyspaces s \<and> table s' = table s
            \<and> base_path s' = base_path s \<and> s3_bucket s' = bucket)"
proof -
  have dumped: "dump_manifest_file dumps s = Inr data"
    using assms(1) by (simp add: dump_manifest_file_def)
  have items: "getitem (PyDict kvs) ''name'' = Inr (name s)"
    "getitem (PyDict kvs) ''base_path'' = Inr (base_path' s)"
    "getitem (PyDict kvs) ''hosts'' = Inr (hosts s)"
    "getitem (PyDict kvs) ''keyspaces'' = Inr (keyspaces s)"
    "getitem (PyDict kvs) ''table'' = Inr (table s)"
    using assms(3) by simp_all
  have loaded: "load_manifest_file loads now data bucket = Inr (s\<lparr>s3_bucket := bucket\<rparr>)"
    using assms(2) items by (simp add: load_manifest_file_def Snapshot_def)
  have "base_path (s\<lparr>s3_bucket := bucket\<rparr>) = base_path s"
    by (simp add: base_path_def)
  with dumped loaded show ?thesis
    by simp
qed

theorem manifest_round_trip_witness:
  "dump_manifest_file (\<lambda>v. Inr (json_text v)) june = Inr (json_text (manifest_data june))
   \<and> load_manifest_file (decode_known [manifest_data january, manifest_data june])
        ''20240101000000'' (json_text (manifest_data june)) ''bucket'' = Inr june"
proof -
  have decoded: "decode_known [manifest_data january, manifest_data june]
      (json_text (manifest_data june)) =
      Inr (PyDict [(''name'', name june), (''base_path'', base_path' june),
           (''hosts'', hosts june), (''keyspaces'', keyspaces june), (''table'', table june)])"
    by code_simp
  have bucket: "june\<lparr>s3_bucket := ''bucket''\<rparr> = june"
    by (simp add: june_def Snapshot_def)
  from manifest_round_trip [of "\<lambda>v. Inr (json_text v)" june "json_text (manifest_data june)"
      "decode_known [manifest_data january, manifest_data june]", OF _ decoded, of "''20240101000000''" "''bucket''"]
    bucket
  show ?thesis
    by simp
qed

end
